theory Spec2Isabelle
  imports Main "HOL-Library.Word"
begin

unbundle bit_operations_syntax

section \<open>Machine types\<close>

text \<open>
  The model fixes the LP64 data model: \<open>int\<close> and \<open>unsigned int\<close> are 32 bits wide,
  \<open>time_t\<close> and \<open>unsigned long\<close> are 64 bits wide. A signed and an unsigned integer of
  one width share the word type; the signedness is in the operation, as in the machine
  code: \<open>\<le>\<close> and \<open><\<close> compare unsigned, \<open><=s\<close> and \<open><s\<close> compare signed, \<open>ucast\<close>
  zero-extends or truncates and \<open>scast\<close> sign-extends. Arithmetic wraps around; the
  theorems that read a result as a mathematical integer say in which range they do so.
\<close>

type_synonym c_int = "32 word"
type_synonym c_uint = "32 word"
type_synonym c_ulong = "64 word"
type_synonym time_t = "64 word"

text \<open>The macros (\<open>MIN\<close> and \<open>MAX\<close> are taken by the syntax of HOL) \<open>MIN(X, Y) = (X) < (Y) ? (X) : (Y)\<close> and \<open>MAX(X, Y) = (X) > (Y) ? (X) : (Y)\<close>;
  rconn.c applies them to signed operands only.\<close>

definition c_MIN :: "'a::len word \<Rightarrow> 'a word \<Rightarrow> 'a word" where
  "c_MIN x y = (if x <s y then x else y)"

definition c_MAX :: "'a::len word \<Rightarrow> 'a word \<Rightarrow> 'a word" where
  "c_MAX x y = (if y <s x then x else y)"

definition UINT_MAX :: c_uint where
  "UINT_MAX = 0xFFFFFFFF"

text \<open>Modelled from the spec: \<open>TIME_MAX\<close> and \<open>TIME_MIN\<close> come from timeval.h, which is not
  among the sources; the spec calls the value stored before a forced disconnect the maximum
  representable time, so they are the largest and the smallest \<open>time_t\<close>.\<close>

definition TIME_MAX :: time_t where
  "TIME_MAX = 0x7FFFFFFFFFFFFFFF"

definition TIME_MIN :: time_t where
  "TIME_MIN = 0x8000000000000000"

text \<open>Modelled from the spec: \<open>sat_add\<close> comes from sat-math.h, which is not among the
  sources; the spec describes the timer arithmetic as saturating at the representable
  maximum of an unsigned int.\<close>

definition sat_add :: "c_uint \<Rightarrow> c_uint \<Rightarrow> c_uint" where
  "sat_add x y = (if x \<le> x + y then x + y else UINT_MAX)"

text \<open>The errno values of Linux.\<close>

definition EAGAIN :: c_int where
  "EAGAIN = 11"

definition ENOTCONN :: c_int where
  "ENOTCONN = 107"

section \<open>Data model\<close>

datatype state = S_VOID | S_BACKOFF | S_CONNECTING | S_ACTIVE | S_IDLE

text \<open>The enumerators are single bits, so that a set of states is a bit mask.\<close>

fun state_val :: "state \<Rightarrow> c_uint" where
  "state_val S_VOID = push_bit 0 1"
| "state_val S_BACKOFF = push_bit 1 1"
| "state_val S_CONNECTING = push_bit 2 1"
| "state_val S_ACTIVE = push_bit 3 1"
| "state_val S_IDLE = push_bit 4 1"

text \<open>A transport handle. The rconn reads the addresses from it when it was opened;
  what the transport answers to connect, send and recv is part of the world below.\<close>

record vconn =
  vc_name :: string
  vc_remote_ip :: "32 word"
  vc_local_ip :: "32 word"
  vc_remote_port :: "16 word"

text \<open>A message buffer: its bytes and the \<open>private_p\<close> pointer, which the rconn uses for
  the address of the packet counter of a queued message (\<open>None\<close> is the null pointer).\<close>

record ofpbuf =
  b_data :: "8 word list"
  b_private_p :: "nat option"

text \<open>Modelled from the spec: \<open>struct rconn_packet_counter\<close> is declared in rconn.h, which
  is not among the sources; the spec gives it as \<open>{n: u32, refcnt: u32}\<close>.\<close>

record rconn_packet_counter =
  pc_n :: "32 word"
  pc_ref_cnt :: "32 word"

text \<open>\<open>struct rconn\<close>. The send queue \<open>txq\<close> is the list of its buffers, head first
  (\<open>txq.n\<close> is its length); the array \<open>monitors\<close> with its count \<open>n_monitors\<close> is the list
  of the first \<open>n_monitors\<close> entries.\<close>

record rconn =
  rc_state :: state
  rc_state_entered :: time_t
  rc_vconn :: "vconn option"
  rc_name :: string
  rc_reliable :: bool
  rc_txq :: "ofpbuf list"
  rc_backoff :: c_int
  rc_max_backoff :: c_int
  rc_backoff_deadline :: time_t
  rc_last_received :: time_t
  rc_last_connected :: time_t
  rc_packets_sent :: c_uint
  rc_seqno :: c_uint
  rc_probably_admitted :: bool
  rc_last_admitted :: time_t
  rc_packets_received :: c_uint
  rc_n_attempted_connections :: c_uint
  rc_n_successful_connections :: c_uint
  rc_creation_time :: time_t
  rc_total_time_connected :: c_ulong
  rc_questionable_connectivity :: bool
  rc_last_questioned :: time_t
  rc_probe_interval :: c_int
  rc_local_ip :: "32 word"
  rc_remote_ip :: "32 word"
  rc_remote_port :: "16 word"
  rc_monitors :: "vconn list"

section \<open>The world outside the rconn\<close>

text \<open>
  Everything the rconn calls but does not implement: the clock, the transport, the
  buffers, the event loop, and the heap cells of the packet counters, which callers share
  with the rconn by address.

  The clock \<open>w_now\<close> is what \<open>time_now()\<close> returns; it stands still during one call of
  the interface and the caller advances it between calls. The answers of the transport
  are given in the order of the calls: \<open>w_open w i\<close> is the answer to the \<open>i\<close>-th
  \<open>vconn_open\<close>, and \<open>w_open_n\<close> counts the calls made so far; likewise for connect,
  send and recv. As the rconn is sequential and deterministic, every behaviour of a
  transport is one such family of answers. What the rconn does to the outside is logged:
  the transports closed, the buffers handed to a transport by a successful send, the
  buffers deleted, the immediate wake-ups requested. Logging and coverage counters are
  left out.
\<close>

record world =
  w_now :: time_t
  w_open :: "nat \<Rightarrow> string \<Rightarrow> c_int \<times> vconn"
  w_open_n :: nat
  w_connect :: "nat \<Rightarrow> c_int"
  w_connect_n :: nat
  w_send :: "nat \<Rightarrow> c_int"
  w_send_n :: nat
  w_recv :: "nat \<Rightarrow> c_int \<times> ofpbuf"
  w_recv_n :: nat
  w_echo :: ofpbuf
  w_counters :: "nat \<rightharpoonup> rconn_packet_counter"
  w_closed :: "vconn list"
  w_sent :: "(vconn \<times> ofpbuf) list"
  w_deleted :: "ofpbuf list"
  w_wakes :: nat

text \<open>What stops the C program: a null or dangling pointer dereferenced, an assertion
  that fails, a read beyond a buffer.\<close>

datatype fault =
  Null_counter | Null_vconn | Null_buffer | Wild_pointer | Assertion_failed | Short_buffer

definition seq :: "fault + 'a \<Rightarrow> ('a \<Rightarrow> fault + 'b) \<Rightarrow> fault + 'b" where
  "seq m f = (case m of Inl e \<Rightarrow> Inl e | Inr x \<Rightarrow> f x)"

definition time_now :: "world \<Rightarrow> time_t" where
  "time_now w = w_now w"

definition poll_immediate_wake :: "world \<Rightarrow> world" where
  "poll_immediate_wake w = w\<lparr>w_wakes := Suc (w_wakes w)\<rparr>"

text \<open>\<open>vconn_close\<close> and \<open>ofpbuf_delete\<close> accept a null pointer and then do nothing.\<close>

definition vconn_close :: "vconn option \<Rightarrow> world \<Rightarrow> world" where
  "vconn_close v w = (case v of None \<Rightarrow> w | Some c \<Rightarrow> w\<lparr>w_closed := w_closed w @ [c]\<rparr>)"

definition ofpbuf_delete :: "ofpbuf option \<Rightarrow> world \<Rightarrow> world" where
  "ofpbuf_delete b w = (case b of None \<Rightarrow> w | Some c \<Rightarrow> w\<lparr>w_deleted := w_deleted w @ [c]\<rparr>)"

text \<open>A clone is a fresh buffer with the same bytes; its \<open>private_p\<close> is null.\<close>

definition ofpbuf_clone :: "ofpbuf \<Rightarrow> ofpbuf" where
  "ofpbuf_clone b = b\<lparr>b_private_p := None\<rparr>"

definition vconn_open :: "string \<Rightarrow> world \<Rightarrow> c_int \<times> vconn option \<times> world" where
  "vconn_open nm w =
     (let (retval, v) = w_open w (w_open_n w) nm;
          w' = w\<lparr>w_open_n := Suc (w_open_n w)\<rparr>
      in (retval, if retval = 0 then Some v else None, w'))"

definition vconn_connect :: "world \<Rightarrow> c_int \<times> world" where
  "vconn_connect w = (w_connect w (w_connect_n w), w\<lparr>w_connect_n := Suc (w_connect_n w)\<rparr>)"

text \<open>A send that returns 0 has taken the buffer.\<close>

definition vconn_send :: "vconn \<Rightarrow> ofpbuf \<Rightarrow> world \<Rightarrow> c_int \<times> world" where
  "vconn_send v b w =
     (let retval = w_send w (w_send_n w);
          w' = w\<lparr>w_send_n := Suc (w_send_n w)\<rparr>
      in (retval, if retval = 0 then w'\<lparr>w_sent := w_sent w' @ [(v, b)]\<rparr> else w'))"

definition vconn_recv :: "world \<Rightarrow> c_int \<times> ofpbuf \<times> world" where
  "vconn_recv w =
     (let (error, b) = w_recv w (w_recv_n w)
      in (error, b, w\<lparr>w_recv_n := Suc (w_recv_n w)\<rparr>))"

section \<open>Packet counters\<close>

definition rconn_packet_counter_inc :: "nat \<Rightarrow> world \<Rightarrow> fault + world" where
  "rconn_packet_counter_inc c w =
     (case w_counters w c of
        None \<Rightarrow> Inl Wild_pointer
      | Some pc \<Rightarrow> Inr (w\<lparr>w_counters := (w_counters w)(c \<mapsto> pc\<lparr>pc_n := pc_n pc + 1\<rparr>)\<rparr>))"

text \<open>The counter is freed when both \<open>n\<close> and \<open>ref_cnt\<close> have reached zero.\<close>

definition rconn_packet_counter_dec :: "nat \<Rightarrow> world \<Rightarrow> fault + world" where
  "rconn_packet_counter_dec c w =
     (case w_counters w c of
        None \<Rightarrow> Inl Wild_pointer
      | Some pc \<Rightarrow>
          if \<not> 0 < pc_n pc then Inl Assertion_failed
          else let pc' = pc\<lparr>pc_n := pc_n pc - 1\<rparr>
               in if pc_n pc' = 0 \<and> pc_ref_cnt pc' = 0
                  then Inr (w\<lparr>w_counters := (w_counters w)(c := None)\<rparr>)
                  else Inr (w\<lparr>w_counters := (w_counters w)(c \<mapsto> pc')\<rparr>))"

section \<open>State transitions\<close>

definition is_connected_state :: "state \<Rightarrow> bool" where
  "is_connected_state st \<longleftrightarrow> (state_val st AND (state_val S_ACTIVE OR state_val S_IDLE)) \<noteq> 0"

definition rconn_is_connected :: "rconn \<Rightarrow> bool" where
  "rconn_is_connected rc = is_connected_state (rc_state rc)"

definition elapsed_in_this_state :: "rconn \<Rightarrow> world \<Rightarrow> c_uint" where
  "elapsed_in_this_state rc w = ucast (time_now w - rc_state_entered rc)"

definition state_transition :: "rconn \<Rightarrow> state \<Rightarrow> world \<Rightarrow> rconn" where
  "state_transition rc st w =
     (let rc1 = rc\<lparr>rc_seqno := rc_seqno rc
                    + (if (rc_state rc = S_ACTIVE) \<noteq> (st = S_ACTIVE) then 1 else 0)\<rparr>;
          rc2 = (if is_connected_state st \<and> \<not> is_connected_state (rc_state rc1)
                 then rc1\<lparr>rc_probably_admitted := False\<rparr> else rc1);
          rc3 = (if rconn_is_connected rc2
                 then rc2\<lparr>rc_total_time_connected :=
                            rc_total_time_connected rc2 + ucast (elapsed_in_this_state rc2 w)\<rparr>
                 else rc2)
      in rc3\<lparr>rc_state := st, rc_state_entered := time_now w\<rparr>)"

definition question_connectivity :: "rconn \<Rightarrow> world \<Rightarrow> rconn" where
  "question_connectivity rc w =
     (let now = time_now w
      in if 60 <s now - rc_last_questioned rc
         then rc\<lparr>rc_questionable_connectivity := True, rc_last_questioned := now\<rparr>
         else rc)"

definition set_vconn_name :: "rconn \<Rightarrow> string \<Rightarrow> rconn" where
  "set_vconn_name rc nm = rc\<lparr>rc_name := nm, rc_local_ip := 0, rc_remote_ip := 0, rc_remote_port := 0\<rparr>"

section \<open>Disconnecting\<close>

definition rconn_disconnect :: "rconn \<Rightarrow> world \<Rightarrow> rconn \<times> world" where
  "rconn_disconnect rc w =
     (if rc_state rc \<noteq> S_VOID then
        let (rc1, w1) = (case rc_vconn rc of
                           Some v \<Rightarrow> (rc\<lparr>rc_vconn := None\<rparr>, vconn_close (Some v) w)
                         | None \<Rightarrow> (rc, w));
            rc2 = set_vconn_name rc1 ''void'';
            rc3 = rc2\<lparr>rc_reliable := False\<rparr>;
            rc4 = rc3\<lparr>rc_backoff := 0, rc_backoff_deadline := TIME_MIN\<rparr>
        in (state_transition rc4 S_VOID w1, w1)
      else (rc, w))"

text \<open>The loop of \<open>flush_queue\<close> over the buffers of the queue, head first: the counter of
  each is decremented, then the buffer is deleted.\<close>

fun flush_loop :: "ofpbuf list \<Rightarrow> world \<Rightarrow> fault + world" where
  "flush_loop [] w = Inr w"
| "flush_loop (b # bs) w =
     (case (case b_private_p b of
              Some counter \<Rightarrow> rconn_packet_counter_dec counter w
            | None \<Rightarrow> Inr w) of
        Inl e \<Rightarrow> Inl e
      | Inr w1 \<Rightarrow> flush_loop bs (ofpbuf_delete (Some b) w1))"

definition flush_queue :: "rconn \<Rightarrow> world \<Rightarrow> fault + rconn \<times> world" where
  "flush_queue rc w =
     (if rc_txq rc = [] then Inr (rc, w)
      else seq (flush_loop (rc_txq rc) w)
             (\<lambda>w1. Inr (rc\<lparr>rc_txq := []\<rparr>, poll_immediate_wake w1)))"

definition disconnect :: "rconn \<Rightarrow> world \<Rightarrow> fault + rconn \<times> world" where
  "disconnect rc w =
     (if rc_reliable rc then
        let now = time_now w
        in seq (if (state_val (rc_state rc)
                      AND (state_val S_CONNECTING OR state_val S_ACTIVE OR state_val S_IDLE)) \<noteq> 0
                then flush_queue (rc\<lparr>rc_vconn := None\<rparr>) (vconn_close (rc_vconn rc) w)
                else Inr (rc, w))
             (\<lambda>(rc1, w1).
                let rc2 = (if rc_backoff_deadline rc1 <=s now
                           then rc1\<lparr>rc_backoff := 1\<rparr>
                           else rc1\<lparr>rc_backoff :=
                                      c_MIN (rc_max_backoff rc1) (c_MAX 1 (2 * rc_backoff rc1))\<rparr>);
                    rc3 = rc2\<lparr>rc_backoff_deadline := now + scast (rc_backoff rc2)\<rparr>;
                    rc4 = state_transition rc3 S_BACKOFF w1
                in Inr (if 60 <s now - rc_last_connected rc4
                        then question_connectivity rc4 w1 else rc4, w1))
      else Inr (rconn_disconnect rc w))"

section \<open>Timeouts\<close>

definition timeout_VOID :: "rconn \<Rightarrow> c_uint" where
  "timeout_VOID rc = UINT_MAX"

definition timeout_BACKOFF :: "rconn \<Rightarrow> c_uint" where
  "timeout_BACKOFF rc = rc_backoff rc"

definition timeout_CONNECTING :: "rconn \<Rightarrow> c_uint" where
  "timeout_CONNECTING rc = c_MAX 1 (rc_backoff rc)"

text \<open>\<open>base\<close> is an \<open>unsigned int\<close>: the later of the two times, truncated. The sum
  \<open>base + probe_interval\<close> is computed in \<open>unsigned int\<close>, the difference with
  \<open>state_entered\<close> in \<open>time_t\<close>, and the result is truncated again.\<close>

definition timeout_ACTIVE :: "rconn \<Rightarrow> c_uint" where
  "timeout_ACTIVE rc =
     (if rc_probe_interval rc \<noteq> 0 then
        let base = (ucast (c_MAX (rc_last_received rc) (rc_state_entered rc)) :: c_uint);
            arg = (ucast ((ucast (base + rc_probe_interval rc) :: time_t) - rc_state_entered rc) :: c_uint)
        in arg
      else UINT_MAX)"

definition timeout_IDLE :: "rconn \<Rightarrow> c_uint" where
  "timeout_IDLE rc = rc_probe_interval rc"

definition timeout :: "rconn \<Rightarrow> c_uint" where
  "timeout rc =
     (case rc_state rc of
        S_VOID \<Rightarrow> timeout_VOID rc
      | S_BACKOFF \<Rightarrow> timeout_BACKOFF rc
      | S_CONNECTING \<Rightarrow> timeout_CONNECTING rc
      | S_ACTIVE \<Rightarrow> timeout_ACTIVE rc
      | S_IDLE \<Rightarrow> timeout_IDLE rc)"

text \<open>\<open>sat_add\<close> takes \<open>state_entered\<close> truncated to an \<open>unsigned int\<close>; its result is
  widened to \<open>time_t\<close> for the signed comparison with the clock.\<close>

definition timed_out :: "rconn \<Rightarrow> world \<Rightarrow> bool" where
  "timed_out rc w \<longleftrightarrow>
     (ucast (sat_add (ucast (rc_state_entered rc)) (timeout rc)) :: time_t) <=s time_now w"

section \<open>Connecting\<close>

definition reconnect :: "rconn \<Rightarrow> world \<Rightarrow> fault + c_int \<times> rconn \<times> world" where
  "reconnect rc w =
     (let rc1 = rc\<lparr>rc_n_attempted_connections := rc_n_attempted_connections rc + 1\<rparr>;
          (retval, v, w1) = vconn_open (rc_name rc1) w;
          rc2 = rc1\<lparr>rc_vconn := v\<rparr>
      in if retval = 0 then
           (case rc_vconn rc2 of
              None \<Rightarrow> Inl Null_vconn
            | Some vc \<Rightarrow>
                let rc3 = rc2\<lparr>rc_remote_ip := vc_remote_ip vc\<rparr>;
                    rc4 = rc3\<lparr>rc_local_ip := vc_local_ip vc\<rparr>;
                    rc5 = rc4\<lparr>rc_remote_port := vc_remote_port vc\<rparr>;
                    rc6 = rc5\<lparr>rc_backoff_deadline := time_now w1 + scast (rc_backoff rc5)\<rparr>
                in Inr (retval, state_transition rc6 S_CONNECTING w1, w1))
         else
           seq (disconnect (rc2\<lparr>rc_backoff_deadline := TIME_MAX\<rparr>) w1)
             (\<lambda>(rc3, w2). Inr (retval, rc3, w2)))"

section \<open>Sending\<close>

text \<open>\<open>try_send\<close> reads the head of the queue before anything else, and hands it to the
  transport, which must be there.\<close>

definition try_send :: "rconn \<Rightarrow> world \<Rightarrow> fault + c_int \<times> rconn \<times> world" where
  "try_send rc w =
     (case rc_txq rc of
        [] \<Rightarrow> Inl Null_buffer
      | head # next \<Rightarrow>
          (case rc_vconn rc of
             None \<Rightarrow> Inl Null_vconn
           | Some v \<Rightarrow>
               let counter = b_private_p head;
                   (retval, w1) = vconn_send v head w
               in if retval \<noteq> 0 then
                    (if retval \<noteq> EAGAIN
                     then seq (disconnect rc w1) (\<lambda>(rc1, w2). Inr (retval, rc1, w2))
                     else Inr (retval, rc, w1))
                  else
                    let rc1 = rc\<lparr>rc_packets_sent := rc_packets_sent rc + 1\<rparr>
                    in seq (case counter of
                              Some c \<Rightarrow> rconn_packet_counter_dec c w1
                            | None \<Rightarrow> Inr w1)
                         (\<lambda>w2. Inr (0, rc1\<lparr>rc_txq := next\<rparr>, w2))))"

text \<open>The loop of \<open>copy_to_monitor\<close>: \<open>i\<close> is the index, \<open>clone\<close> the copy not yet taken by
  a monitor, \<open>ms\<close> the monitors. A monitor whose send fails for good is replaced by the
  last one and the count drops by one.\<close>

function copy_loop ::
  "nat \<Rightarrow> ofpbuf option \<Rightarrow> vconn list \<Rightarrow> ofpbuf \<Rightarrow> world \<Rightarrow> vconn list \<times> ofpbuf option \<times> world"
where
  "copy_loop i clone ms b w =
     (if i < length ms then
        let v = ms ! i;
            clone1 = (case clone of None \<Rightarrow> ofpbuf_clone b | Some c \<Rightarrow> c);
            r = vconn_send v clone1 w
        in if fst r = 0 then copy_loop (i + 1) None ms b (snd r)
           else if fst r \<noteq> EAGAIN
           then copy_loop i (Some clone1) ((butlast ms)[i := last ms]) b (snd r)
           else copy_loop (i + 1) (Some clone1) ms b (snd r)
      else (ms, clone, w))"
  by pat_completeness auto
termination
  by (relation "measure (\<lambda>(i, clone, ms, b, w). length ms - i)") auto

declare copy_loop.simps [simp del]

definition copy_to_monitor :: "rconn \<Rightarrow> ofpbuf \<Rightarrow> world \<Rightarrow> rconn \<times> world" where
  "copy_to_monitor rc b w =
     (let (ms, clone, w1) = copy_loop 0 None (rc_monitors rc) b w
      in (rc\<lparr>rc_monitors := ms\<rparr>, ofpbuf_delete clone w1))"

text \<open>\<open>rconn_send\<close> returns 0 or \<open>ENOTCONN\<close>; \<open>counter\<close> is the address of a packet counter
  or null.\<close>

definition rconn_send ::
  "rconn \<Rightarrow> ofpbuf \<Rightarrow> nat option \<Rightarrow> world \<Rightarrow> fault + c_int \<times> rconn \<times> world" where
  "rconn_send rc b counter w =
     (if rconn_is_connected rc then
        let (rc1, w1) = copy_to_monitor rc b w;
            b1 = b\<lparr>b_private_p := counter\<rparr>
        in seq (case counter of
                  Some c \<Rightarrow> rconn_packet_counter_inc c w1
                | None \<Rightarrow> Inr w1)
             (\<lambda>w2. let rc2 = rc1\<lparr>rc_txq := rc_txq rc1 @ [b1]\<rparr>
                    in if length (rc_txq rc2) = 1
                       then seq (try_send rc2 w2) (\<lambda>(r, rc3, w3). Inr (0, rc3, w3))
                       else Inr (0, rc2, w2))
      else Inr (ENOTCONN, rc, w))"

text \<open>\<open>rconn_send_with_limit\<close> reads \<open>counter->n\<close> first. The counter is unsigned, so the
  comparison with the limit is the unsigned one.\<close>

definition rconn_send_with_limit ::
  "rconn \<Rightarrow> ofpbuf \<Rightarrow> nat option \<Rightarrow> c_int \<Rightarrow> world \<Rightarrow> fault + c_int \<times> rconn \<times> world" where
  "rconn_send_with_limit rc b counter queue_limit w =
     (case counter of
        None \<Rightarrow> Inl Null_counter
      | Some c \<Rightarrow>
          (case w_counters w c of
             None \<Rightarrow> Inl Wild_pointer
           | Some pc \<Rightarrow>
               seq (if queue_limit \<le> pc_n pc then Inr (EAGAIN, rc, w)
                    else rconn_send rc b counter w)
                 (\<lambda>(retval, rc1, w1).
                    if retval \<noteq> 0 then Inr (retval, rc1, ofpbuf_delete (Some b) w1)
                    else Inr (retval, rc1, w1))))"

function do_tx_loop :: "rconn \<Rightarrow> world \<Rightarrow> fault + rconn \<times> world" where
  "do_tx_loop rc w =
     (if 0 < length (rc_txq rc) then
        (case try_send rc w of
           Inl e \<Rightarrow> Inl e
         | Inr r \<Rightarrow>
             if fst r \<noteq> 0 then Inr (snd r)
             else do_tx_loop (fst (snd r)) (snd (snd r)))
      else Inr (rc, w))"
  by pat_completeness auto
termination
proof (relation "measure (\<lambda>(rc, w). length (rc_txq rc))")
  show "wf (measure (\<lambda>(rc, w). length (rc_txq rc)))" by simp
next
  fix rc w r
  assume ne: "0 < length (rc_txq rc)" and ts: "try_send rc w = Inr r" and ok: "\<not> fst r \<noteq> 0"
  from ts ok have "length (rc_txq (fst (snd r))) < length (rc_txq rc)"
    by (auto simp: try_send_def seq_def Let_def
             split: list.splits option.splits sum.splits prod.splits if_splits)
  then show "((fst (snd r), snd (snd r)), (rc, w)) \<in> measure (\<lambda>(rc, w). length (rc_txq rc))"
    by (simp add: case_prod_beta)
qed

declare do_tx_loop.simps [simp del]

definition do_tx_work :: "rconn \<Rightarrow> world \<Rightarrow> fault + rconn \<times> world" where
  "do_tx_work rc w =
     (if rc_txq rc = [] then Inr (rc, w)
      else seq (do_tx_loop rc w)
             (\<lambda>(rc1, w1). Inr (rc1, if rc_txq rc1 = [] then poll_immediate_wake w1 else w1)))"

section \<open>The per-state actions and the run loop\<close>

definition run_VOID :: "rconn \<Rightarrow> world \<Rightarrow> fault + rconn \<times> world" where
  "run_VOID rc w = Inr (rc, w)"

definition run_BACKOFF :: "rconn \<Rightarrow> world \<Rightarrow> fault + rconn \<times> world" where
  "run_BACKOFF rc w =
     (if timed_out rc w then seq (reconnect rc w) (\<lambda>(r, rc1, w1). Inr (rc1, w1))
      else Inr (rc, w))"

definition run_CONNECTING :: "rconn \<Rightarrow> world \<Rightarrow> fault + rconn \<times> world" where
  "run_CONNECTING rc w =
     (case rc_vconn rc of
        None \<Rightarrow> Inl Null_vconn
      | Some v \<Rightarrow>
          let (retval, w1) = vconn_connect w
          in if retval = 0 then
               let rc1 = rc\<lparr>rc_n_successful_connections := rc_n_successful_connections rc + 1\<rparr>;
                   rc2 = state_transition rc1 S_ACTIVE w1
               in Inr (rc2\<lparr>rc_last_connected := rc_state_entered rc2\<rparr>, w1)
             else if retval \<noteq> EAGAIN then disconnect rc w1
             else if timed_out rc w1 then disconnect (rc\<lparr>rc_backoff_deadline := TIME_MAX\<rparr>) w1
             else Inr (rc, w1))"

text \<open>\<open>make_echo_request()\<close> returns the buffer \<open>w_echo\<close> of the world.\<close>

definition run_ACTIVE :: "rconn \<Rightarrow> world \<Rightarrow> fault + rconn \<times> world" where
  "run_ACTIVE rc w =
     (if timed_out rc w then
        let rc1 = state_transition rc S_IDLE w
        in seq (rconn_send rc1 (w_echo w) None w) (\<lambda>(r, rc2, w2). Inr (rc2, w2))
      else do_tx_work rc w)"

definition run_IDLE :: "rconn \<Rightarrow> world \<Rightarrow> fault + rconn \<times> world" where
  "run_IDLE rc w =
     (if timed_out rc w then disconnect (question_connectivity rc w) w
      else do_tx_work rc w)"

definition run_state :: "rconn \<Rightarrow> world \<Rightarrow> fault + rconn \<times> world" where
  "run_state rc w =
     (case rc_state rc of
        S_VOID \<Rightarrow> run_VOID rc w
      | S_BACKOFF \<Rightarrow> run_BACKOFF rc w
      | S_CONNECTING \<Rightarrow> run_CONNECTING rc w
      | S_ACTIVE \<Rightarrow> run_ACTIVE rc w
      | S_IDLE \<Rightarrow> run_IDLE rc w)"

text \<open>\<open>rconn_run\<close> repeats the action of the current state until an action leaves the state
  as it was. Nothing bounds the number of rounds, so the loop carries fuel: \<open>None\<close> is a
  loop that has not come to rest within \<open>k\<close> rounds.\<close>

fun rconn_run :: "nat \<Rightarrow> rconn \<Rightarrow> world \<Rightarrow> (fault + rconn \<times> world) option" where
  "rconn_run 0 rc w = None"
| "rconn_run (Suc k) rc w =
     (case run_state rc w of
        Inl e \<Rightarrow> Some (Inl e)
      | Inr (rc1, w1) \<Rightarrow>
          if rc_state rc1 \<noteq> rc_state rc then rconn_run k rc1 w1 else Some (Inr (rc1, w1)))"

section \<open>Receiving\<close>

text \<open>The message type codes come from openflow.h, which is not among the sources, and
  the spec names the ten codes without their numbers; they are a parameter of the model.\<close>

record ofp_type =
  OFPT_HELLO :: nat
  OFPT_ERROR :: nat
  OFPT_ECHO_REQUEST :: nat
  OFPT_ECHO_REPLY :: nat
  OFPT_VENDOR :: nat
  OFPT_FEATURES_REQUEST :: nat
  OFPT_FEATURES_REPLY :: nat
  OFPT_GET_CONFIG_REQUEST :: nat
  OFPT_GET_CONFIG_REPLY :: nat
  OFPT_SET_CONFIG :: nat

text \<open>The numbering of OpenFlow 1.0, for the examples.\<close>

definition openflow_1_0 :: ofp_type where
  "openflow_1_0 =
     \<lparr>OFPT_HELLO = 0, OFPT_ERROR = 1, OFPT_ECHO_REQUEST = 2, OFPT_ECHO_REPLY = 3,
      OFPT_VENDOR = 4, OFPT_FEATURES_REQUEST = 5, OFPT_FEATURES_REPLY = 6,
      OFPT_GET_CONFIG_REQUEST = 7, OFPT_GET_CONFIG_REPLY = 8, OFPT_SET_CONFIG = 9\<rparr>"

definition pre_admission_mask :: "ofp_type \<Rightarrow> c_uint" where
  "pre_admission_mask T =
     push_bit (OFPT_HELLO T) 1 OR push_bit (OFPT_ERROR T) 1
     OR push_bit (OFPT_ECHO_REQUEST T) 1 OR push_bit (OFPT_ECHO_REPLY T) 1
     OR push_bit (OFPT_VENDOR T) 1 OR push_bit (OFPT_FEATURES_REQUEST T) 1
     OR push_bit (OFPT_FEATURES_REPLY T) 1 OR push_bit (OFPT_GET_CONFIG_REQUEST T) 1
     OR push_bit (OFPT_GET_CONFIG_REPLY T) 1 OR push_bit (OFPT_SET_CONFIG T) 1"

text \<open>\<open>oh->type\<close> is the byte at offset 1 of the buffer.\<close>

definition is_admitted_msg :: "ofp_type \<Rightarrow> ofpbuf \<Rightarrow> fault + bool" where
  "is_admitted_msg T b =
     (if length (b_data b) < 2 then Inl Short_buffer
      else let type = b_data b ! 1
           in Inr (\<not> (type < 32
                       \<and> (push_bit (unat type) (1 :: c_uint) AND pre_admission_mask T) \<noteq> 0)))"

text \<open>\<open>rconn_recv\<close> returns the buffer received, or null. The three tests of the admission
  heuristic are evaluated left to right and stop at the first that holds.\<close>

definition rconn_recv ::
  "ofp_type \<Rightarrow> rconn \<Rightarrow> world \<Rightarrow> fault + ofpbuf option \<times> rconn \<times> world" where
  "rconn_recv T rc w =
     (if (state_val (rc_state rc) AND (state_val S_ACTIVE OR state_val S_IDLE)) \<noteq> 0 then
        (case rc_vconn rc of
           None \<Rightarrow> Inl Null_vconn
         | Some v \<Rightarrow>
             let (error, buffer, w1) = vconn_recv w
             in if error = 0 then
                  let (rc1, w2) = copy_to_monitor rc buffer w1
                  in seq (if rc_probably_admitted rc1 then Inr True
                          else seq (is_admitted_msg T buffer)
                                 (\<lambda>a. Inr (a \<or> 30 <=s time_now w2 - rc_last_connected rc1)))
                       (\<lambda>admit.
                          let rc2 = (if admit
                                     then rc1\<lparr>rc_probably_admitted := True,
                                             rc_last_admitted := time_now w2\<rparr>
                                     else rc1);
                              rc3 = rc2\<lparr>rc_last_received := time_now w2\<rparr>;
                              rc4 = rc3\<lparr>rc_packets_received := rc_packets_received rc3 + 1\<rparr>;
                              rc5 = (if rc_state rc4 = S_IDLE
                                     then state_transition rc4 S_ACTIVE w2 else rc4)
                          in Inr (Some buffer, rc5, w2))
                else if error \<noteq> EAGAIN
                then seq (disconnect rc w1) (\<lambda>(rc1, w2). Inr (None, rc1, w2))
                else Inr (None, rc, w1))
      else Inr (None, rc, w))"

section \<open>Creation and configuration\<close>

definition rconn_set_probe_interval :: "rconn \<Rightarrow> c_int \<Rightarrow> rconn" where
  "rconn_set_probe_interval rc probe_interval =
     rc\<lparr>rc_probe_interval := (if probe_interval \<noteq> 0 then c_MAX 5 probe_interval else 0)\<rparr>"

text \<open>The storage of a new rconn is zeroed, which is where the addresses get their 0.\<close>

definition rconn_create :: "c_int \<Rightarrow> c_int \<Rightarrow> world \<Rightarrow> rconn" where
  "rconn_create probe_interval max_backoff w =
     rconn_set_probe_interval
       \<lparr>rc_state = S_VOID,
        rc_state_entered = time_now w,
        rc_vconn = None,
        rc_name = ''void'',
        rc_reliable = False,
        rc_txq = [],
        rc_backoff = 0,
        rc_max_backoff = (if max_backoff \<noteq> 0 then max_backoff else 8),
        rc_backoff_deadline = TIME_MIN,
        rc_last_received = time_now w,
        rc_last_connected = time_now w,
        rc_packets_sent = 0,
        rc_seqno = 0,
        rc_probably_admitted = False,
        rc_last_admitted = time_now w,
        rc_packets_received = 0,
        rc_n_attempted_connections = 0,
        rc_n_successful_connections = 0,
        rc_creation_time = time_now w,
        rc_total_time_connected = 0,
        rc_questionable_connectivity = False,
        rc_last_questioned = time_now w,
        rc_probe_interval = 0,
        rc_local_ip = 0,
        rc_remote_ip = 0,
        rc_remote_port = 0,
        rc_monitors = []\<rparr>
       probe_interval"

definition rconn_set_max_backoff :: "rconn \<Rightarrow> c_int \<Rightarrow> world \<Rightarrow> rconn" where
  "rconn_set_max_backoff rc max_backoff w =
     (let rc1 = rc\<lparr>rc_max_backoff := c_MAX 1 max_backoff\<rparr>
      in if rc_state rc1 = S_BACKOFF \<and> max_backoff <s rc_backoff rc1 then
           let rc2 = rc1\<lparr>rc_backoff := max_backoff\<rparr>
           in if time_now w + scast max_backoff <s rc_backoff_deadline rc2
              then rc2\<lparr>rc_backoff_deadline := time_now w + scast max_backoff\<rparr>
              else rc2
         else rc1)"

definition rconn_connect :: "rconn \<Rightarrow> string \<Rightarrow> world \<Rightarrow> fault + c_int \<times> rconn \<times> world" where
  "rconn_connect rc nm w =
     (let (rc1, w1) = rconn_disconnect rc w;
          rc2 = set_vconn_name rc1 nm;
          rc3 = rc2\<lparr>rc_reliable := True\<rparr>
      in reconnect rc3 w1)"

text \<open>\<open>rconn_connect_unreliably\<close> asserts that the transport it is given is not null.\<close>

definition rconn_connect_unreliably ::
  "rconn \<Rightarrow> string \<Rightarrow> vconn option \<Rightarrow> world \<Rightarrow> fault + rconn \<times> world" where
  "rconn_connect_unreliably rc nm v w =
     (if v = None then Inl Assertion_failed
      else let (rc1, w1) = rconn_disconnect rc w;
               rc2 = set_vconn_name rc1 nm;
               rc3 = rc2\<lparr>rc_reliable := False\<rparr>;
               rc4 = rc3\<lparr>rc_vconn := v\<rparr>;
               rc5 = rc4\<lparr>rc_last_connected := time_now w1\<rparr>
           in Inr (state_transition rc5 S_ACTIVE w1, w1))"

definition rconn_reconnect :: "rconn \<Rightarrow> world \<Rightarrow> fault + rconn \<times> world" where
  "rconn_reconnect rc w =
     (if (state_val (rc_state rc) AND (state_val S_ACTIVE OR state_val S_IDLE)) \<noteq> 0
      then disconnect rc w else Inr (rc, w))"

definition rconn_add_monitor :: "rconn \<Rightarrow> vconn \<Rightarrow> world \<Rightarrow> rconn \<times> world" where
  "rconn_add_monitor rc v w =
     (if length (rc_monitors rc) < 8 then (rc\<lparr>rc_monitors := rc_monitors rc @ [v]\<rparr>, w)
      else (rc, vconn_close (Some v) w))"

definition rconn_is_connectivity_questionable :: "rconn \<Rightarrow> bool \<times> rconn" where
  "rconn_is_connectivity_questionable rc =
     (rc_questionable_connectivity rc, rc\<lparr>rc_questionable_connectivity := False\<rparr>)"

section \<open>Example configurations\<close>

text \<open>A transport, a world whose clock reads 1000 and whose transport refuses to open
  (error 111), answers try-again to connect and recv and accepts every send, and an rconn
  that is connected reliably and has backed off twice.\<close>

definition example_vconn :: vconn where
  "example_vconn = \<lparr>vc_name = ''tcp:10.0.0.1'', vc_remote_ip = 0x0A000001,
     vc_local_ip = 0x0A000002, vc_remote_port = 6633\<rparr>"

definition example_world :: world where
  "example_world =
     \<lparr>w_now = 1000,
      w_open = (\<lambda>i nm. (111, example_vconn)), w_open_n = 0,
      w_connect = (\<lambda>i. EAGAIN), w_connect_n = 0,
      w_send = (\<lambda>i. 0), w_send_n = 0,
      w_recv = (\<lambda>i. (EAGAIN, \<lparr>b_data = [], b_private_p = None\<rparr>)), w_recv_n = 0,
      w_echo = \<lparr>b_data = [1, 2, 0, 8, 0, 0, 0, 0], b_private_p = None\<rparr>,
      w_counters = Map.empty,
      w_closed = [], w_sent = [], w_deleted = [], w_wakes = 0\<rparr>"

definition example_active :: rconn where
  "example_active =
     (rconn_create 5 8 example_world)
       \<lparr>rc_state := S_ACTIVE, rc_vconn := Some example_vconn, rc_reliable := True,
        rc_backoff := 2, rc_backoff_deadline := 1002,
        rc_local_ip := 0x0A000002, rc_remote_ip := 0x0A000001, rc_remote_port := 6633\<rparr>"

text \<open>The same world with a packet counter at address 7 that counts five messages, and a
  message of type 10.\<close>

definition example_counters :: world where
  "example_counters = example_world\<lparr>w_counters := [7 \<mapsto> \<lparr>pc_n = 5, pc_ref_cnt = 1\<rparr>]\<rparr>"

definition example_buf :: ofpbuf where
  "example_buf = \<lparr>b_data = [1, 10, 0, 8, 0, 0, 0, 0], b_private_p = None\<rparr>"

text \<open>The ten pre-admission message types as the spec lists them, to compare the bit
  mask of \<open>is_admitted_msg\<close> with.\<close>

definition spec_pre_admission_codes :: "ofp_type \<Rightarrow> nat set" where
  "spec_pre_admission_codes T =
     {OFPT_HELLO T, OFPT_ERROR T, OFPT_ECHO_REQUEST T, OFPT_ECHO_REPLY T, OFPT_VENDOR T,
      OFPT_FEATURES_REQUEST T, OFPT_FEATURES_REPLY T, OFPT_GET_CONFIG_REQUEST T,
      OFPT_GET_CONFIG_REPLY T, OFPT_SET_CONFIG T}"

text \<open>A HELLO message, and the world whose transport delivers a given message on every
  recv.\<close>

definition example_hello :: ofpbuf where
  "example_hello = \<lparr>b_data = [1, 0, 0, 8, 0, 0, 0, 0], b_private_p = None\<rparr>"

definition example_receiving :: "ofpbuf \<Rightarrow> world" where
  "example_receiving b = example_world\<lparr>w_recv := (\<lambda>i. (0, b))\<rparr>"

text \<open>What a step of the rconn that opens no transport leaves alone: the probe interval,
  the clock, the answers of \<open>vconn_open\<close> still to come and, on a reliable rconn, the
  reliability, the name and the cached addresses.\<close>

definition keeps_peer :: "rconn \<Rightarrow> world \<Rightarrow> rconn \<Rightarrow> world \<Rightarrow> bool" where
  "keeps_peer rc w rc' w' \<longleftrightarrow>
     rc_probe_interval rc' = rc_probe_interval rc
     \<and> w_open w' = w_open w \<and> w_open_n w' = w_open_n w \<and> w_now w' = w_now w
     \<and> (rc_reliable rc \<longrightarrow>
          rc_reliable rc' \<and> rc_name rc' = rc_name rc \<and> rc_local_ip rc' = rc_local_ip rc
          \<and> rc_remote_ip rc' = rc_remote_ip rc \<and> rc_remote_port rc' = rc_remote_port rc)"

text \<open>The same for steps that may open transports: the cached addresses are as before if
  every \<open>vconn_open\<close> made on the way has failed.\<close>

definition run_keeps_peer :: "rconn \<Rightarrow> world \<Rightarrow> rconn \<Rightarrow> world \<Rightarrow> bool" where
  "run_keeps_peer rc w rc' w' \<longleftrightarrow>
     rc_probe_interval rc' = rc_probe_interval rc
     \<and> w_open w' = w_open w \<and> w_open_n w \<le> w_open_n w' \<and> w_now w' = w_now w
     \<and> (rc_reliable rc \<longrightarrow>
          rc_reliable rc' \<and> rc_name rc' = rc_name rc
          \<and> ((\<forall>i. w_open_n w \<le> i \<and> i < w_open_n w' \<longrightarrow> fst (w_open w i (rc_name rc)) \<noteq> 0) \<longrightarrow>
               rc_local_ip rc' = rc_local_ip rc \<and> rc_remote_ip rc' = rc_remote_ip rc
               \<and> rc_remote_port rc' = rc_remote_port rc))"

text \<open>The example rconn ten seconds into a backoff of two seconds.\<close>

definition example_backoff :: rconn where
  "example_backoff = example_active\<lparr>rc_state := S_BACKOFF, rc_state_entered := 990, rc_vconn := None\<rparr>"

text \<open>A sequence of calls of \<open>rconn_run\<close>, each with its fuel and with the clock set to a
  new reading before it. It stops at the first call that stops the program or runs out
  of fuel.\<close>

fun run_calls :: "(nat \<times> time_t) list \<Rightarrow> rconn \<Rightarrow> world \<Rightarrow> (fault + rconn \<times> world) option" where
  "run_calls [] rc w = Some (Inr (rc, w))"
| "run_calls ((k, t) # cs) rc w =
     (case rconn_run k rc (w\<lparr>w_now := t\<rparr>) of
        None \<Rightarrow> None
      | Some (Inl e) \<Rightarrow> Some (Inl e)
      | Some (Inr (rc1, w1)) \<Rightarrow> run_calls cs rc1 w1)"

text \<open>A sequence of rounds of the loop of \<open>rconn_run\<close>: each round calls the handler
  of the current state once, with the clock set to a new reading before it. A call of
  \<open>rconn_run\<close> is such a sequence with one reading for all its rounds; it ends when a
  round leaves the state as it was.\<close>

fun run_rounds :: "time_t list \<Rightarrow> rconn \<Rightarrow> world \<Rightarrow> fault + rconn \<times> world" where
  "run_rounds [] rc w = Inr (rc, w)"
| "run_rounds (t # ts) rc w =
     (case run_state rc (w\<lparr>w_now := t\<rparr>) of
        Inl e \<Rightarrow> Inl e
      | Inr (rc1, w1) \<Rightarrow> run_rounds ts rc1 w1)"

text \<open>The example world when the clock has reached the largest \<open>unsigned int\<close>, and the
  example rconn with its probe interval set to 0.\<close>

definition example_year_2106 :: world where
  "example_year_2106 = example_world\<lparr>w_now := 0xFFFFFFFF\<rparr>"

definition example_unprobed :: rconn where
  "example_unprobed = rconn_set_probe_interval example_active 0"

text \<open>The example rconn after five silent seconds: \<open>run_ACTIVE\<close> has sent the probe and
  the state is IDLE. Then its probe interval is set to 0.\<close>

definition example_probing :: "rconn \<times> world" where
  "example_probing = projr (run_ACTIVE example_active (example_world\<lparr>w_now := 1005\<rparr>))"

definition example_idle_unprobed :: rconn where
  "example_idle_unprobed = rconn_set_probe_interval (fst example_probing) 0"

text \<open>A new rconn with the given \<open>max_backoff\<close>, connected reliably to a peer that
  refuses: what \<open>rconn_connect\<close> returns.\<close>

definition example_refused :: "c_int \<Rightarrow> c_int \<times> rconn \<times> world" where
  "example_refused max_backoff =
     projr (rconn_connect (rconn_create 0 max_backoff example_world) ''tcp:10.0.0.1'' example_world)"

text \<open>The configurations an rconn can be in: what \<open>rconn_create\<close> returns, and what any
  call of the interface makes of such a configuration, in any world and with any
  arguments.\<close>

inductive reachable :: "rconn \<Rightarrow> bool" where
  reach_create: "reachable (rconn_create probe_interval max_backoff w)"
| reach_set_max_backoff: "reachable rc \<Longrightarrow> reachable (rconn_set_max_backoff rc max_backoff w)"
| reach_set_probe_interval: "reachable rc \<Longrightarrow> reachable (rconn_set_probe_interval rc probe_interval)"
| reach_connect: "reachable rc \<Longrightarrow> rconn_connect rc nm w = Inr (r, rc', w') \<Longrightarrow> reachable rc'"
| reach_connect_unreliably:
    "reachable rc \<Longrightarrow> rconn_connect_unreliably rc nm v w = Inr (rc', w') \<Longrightarrow> reachable rc'"
| reach_reconnect: "reachable rc \<Longrightarrow> rconn_reconnect rc w = Inr (rc', w') \<Longrightarrow> reachable rc'"
| reach_disconnect: "reachable rc \<Longrightarrow> rconn_disconnect rc w = (rc', w') \<Longrightarrow> reachable rc'"
| reach_run: "reachable rc \<Longrightarrow> rconn_run k rc w = Some (Inr (rc', w')) \<Longrightarrow> reachable rc'"
| reach_recv: "reachable rc \<Longrightarrow> rconn_recv T rc w = Inr (b, rc', w') \<Longrightarrow> reachable rc'"
| reach_send: "reachable rc \<Longrightarrow> rconn_send rc b counter w = Inr (r, rc', w') \<Longrightarrow> reachable rc'"
| reach_send_with_limit:
    "reachable rc \<Longrightarrow> rconn_send_with_limit rc b counter queue_limit w = Inr (r, rc', w')
     \<Longrightarrow> reachable rc'"
| reach_add_monitor: "reachable rc \<Longrightarrow> rconn_add_monitor rc v w = (rc', w') \<Longrightarrow> reachable rc'"
| reach_is_connectivity_questionable:
    "reachable rc \<Longrightarrow> rconn_is_connectivity_questionable rc = (q, rc') \<Longrightarrow> reachable rc'"

text \<open>Two facts of the lifecycle: only a reliable rconn waits in BACKOFF or CONNECTING,
  and an rconn in CONNECTING, ACTIVE or IDLE has a transport.\<close>

definition lifecycle_ok :: "rconn \<Rightarrow> bool" where
  "lifecycle_ok rc \<longleftrightarrow>
     (rc_state rc = S_BACKOFF \<or> rc_state rc = S_CONNECTING \<longrightarrow> rc_reliable rc)
     \<and> (rc_state rc = S_CONNECTING \<or> rc_state rc = S_ACTIVE \<or> rc_state rc = S_IDLE \<longrightarrow>
          rc_vconn rc \<noteq> None)"

text \<open>The refused rconn one second later, when the transport opens but does not finish
  the connection: \<open>rconn_run\<close> leaves it in CONNECTING with backoff 1.\<close>

definition example_retrying :: "rconn \<times> world" where
  "example_retrying =
     projr (the (rconn_run 2 (fst (snd (example_refused 8)))
       ((snd (snd (example_refused 8)))\<lparr>w_now := 1001, w_open := (\<lambda>i nm. (0, example_vconn))\<rparr>)))"

section \<open>Properties\<close>

lemma u32_even_unat: "even (unat x) = even x" for x :: "32 word"
  by (simp add: even_iff_mod_2_eq_zero word_eq_iff_unsigned [where ?'a = nat] unat_mod)

lemma u32_unat_plus_one: "x \<noteq> 0xFFFFFFFF \<Longrightarrow> unat (x + 1) = unat x + 1" for x :: "32 word"
proof -
  assume ne: "x \<noteq> 0xFFFFFFFF"
  have lt: "unat x < 4294967296"
    using unsigned_less [of x, where ?'a = nat] by simp
  have "unat x \<noteq> 4294967295"
  proof
    assume "unat x = 4294967295"
    then have "(of_nat (unat x) :: 32 word) = of_nat 4294967295" by (rule arg_cong)
    then show False using ne by simp
  qed
  with lt have "unat x + 1 < 4294967296" by arith
  then show ?thesis by (simp add: unat_word_ariths)
qed

lemma is_connected_state_iff: "is_connected_state st \<longleftrightarrow> st = S_ACTIVE \<or> st = S_IDLE"
  by (cases st) (simp_all add: is_connected_state_def)

lemma state_transition_seqno:
  "rc_seqno (state_transition rc st w)
     = rc_seqno rc + (if (rc_state rc = S_ACTIVE) \<noteq> (st = S_ACTIVE) then 1 else 0)"
  by (simp add: state_transition_def Let_def)

lemma state_transition_state [simp]: "rc_state (state_transition rc st w) = st"
  by (simp add: state_transition_def Let_def)

lemma seq_Inr [simp]: "seq (Inr x) f = f x" by (simp add: seq_def)
lemma seq_Inl [simp]: "seq (Inl e) f = Inl e" by (simp add: seq_def)
lemma seq_eq_Inr: "seq m f = Inr y \<longleftrightarrow> (\<exists>x. m = Inr x \<and> f x = Inr y)"
  by (cases m) simp_all

lemma sint_c_MIN: "sint (c_MIN x y) = min (sint x) (sint y)"
  by (simp add: c_MIN_def word_sless_alt min_def)
lemma sint_c_MAX: "sint (c_MAX x y) = max (sint x) (sint y)"
  by (simp add: c_MAX_def word_sless_alt max_def)

lemma sint_double: "- (2 ^ 30) \<le> sint b \<Longrightarrow> sint b < 2 ^ 30 \<Longrightarrow> sint (2 * b) = 2 * sint b" for b :: "32 word"
  by (simp add: signed_take_bit_int_eq_self sint_word_ariths)

lemma flush_queue_Inr: "flush_queue rc w = Inr (rc', w') \<Longrightarrow> rc' = rc\<lparr>rc_txq := []\<rparr>"
  by (auto simp: flush_queue_def seq_eq_Inr split: if_splits)

lemma state_transition_frame [simp]:
  "rc_backoff (state_transition rc st w) = rc_backoff rc"
  "rc_max_backoff (state_transition rc st w) = rc_max_backoff rc"
  "rc_backoff_deadline (state_transition rc st w) = rc_backoff_deadline rc"
  "rc_reliable (state_transition rc st w) = rc_reliable rc"
  "rc_probe_interval (state_transition rc st w) = rc_probe_interval rc"
  "rc_local_ip (state_transition rc st w) = rc_local_ip rc"
  "rc_remote_ip (state_transition rc st w) = rc_remote_ip rc"
  "rc_remote_port (state_transition rc st w) = rc_remote_port rc"
  "rc_vconn (state_transition rc st w) = rc_vconn rc"
  "rc_txq (state_transition rc st w) = rc_txq rc"
  "rc_last_connected (state_transition rc st w) = rc_last_connected rc"
  "rc_last_admitted (state_transition rc st w) = rc_last_admitted rc"
  "rc_state_entered (state_transition rc st w) = time_now w"
  "rc_monitors (state_transition rc st w) = rc_monitors rc"
  "rc_name (state_transition rc st w) = rc_name rc"
  by (simp_all add: state_transition_def Let_def)

lemma question_connectivity_frame [simp]:
  "rc_state (question_connectivity rc w) = rc_state rc"
  "rc_backoff (question_connectivity rc w) = rc_backoff rc"
  "rc_max_backoff (question_connectivity rc w) = rc_max_backoff rc"
  "rc_backoff_deadline (question_connectivity rc w) = rc_backoff_deadline rc"
  "rc_reliable (question_connectivity rc w) = rc_reliable rc"
  "rc_probe_interval (question_connectivity rc w) = rc_probe_interval rc"
  "rc_local_ip (question_connectivity rc w) = rc_local_ip rc"
  "rc_remote_ip (question_connectivity rc w) = rc_remote_ip rc"
  "rc_remote_port (question_connectivity rc w) = rc_remote_port rc"
  "rc_vconn (question_connectivity rc w) = rc_vconn rc"
  "rc_txq (question_connectivity rc w) = rc_txq rc"
  "rc_state_entered (question_connectivity rc w) = rc_state_entered rc"
  "rc_last_connected (question_connectivity rc w) = rc_last_connected rc"
  "rc_monitors (question_connectivity rc w) = rc_monitors rc"
  "rc_name (question_connectivity rc w) = rc_name rc"
  by (simp_all add: question_connectivity_def Let_def)

lemma disconnect_reliable:
  assumes "rc_reliable rc" and "disconnect rc w = Inr (rc', w')"
  shows "rc_state rc' = S_BACKOFF"
    and "rc_backoff rc' = (if rc_backoff_deadline rc <=s time_now w then 1
                           else c_MIN (rc_max_backoff rc) (c_MAX 1 (2 * rc_backoff rc)))"
    and "rc_backoff_deadline rc' = time_now w + scast (rc_backoff rc')"
    and "rc_max_backoff rc' = rc_max_backoff rc"
    and "rc_reliable rc'"
    and "rc_probe_interval rc' = rc_probe_interval rc"
    and "rc_local_ip rc' = rc_local_ip rc"
    and "rc_remote_ip rc' = rc_remote_ip rc"
    and "rc_remote_port rc' = rc_remote_port rc"
  using assms
  by (auto simp: disconnect_def seq_eq_Inr Let_def dest!: flush_queue_Inr split: if_splits)

lemma sint_scast_64: "sint (scast b :: 64 word) = sint b" for b :: "32 word"
  by (simp add: sint_up_scast is_up)

lemma sint_add_64:
  "- (2 ^ 63) \<le> sint a + sint b \<Longrightarrow> sint a + sint b < 2 ^ 63 \<Longrightarrow> sint (a + b) = sint a + sint b"
  for a b :: "64 word"
  by (simp add: signed_take_bit_int_eq_self sint_word_ariths)

lemma disconnect_returns: "rc_txq rc = [] \<Longrightarrow> \<exists>rc' w'. disconnect rc w = Inr (rc', w')"
  by (simp add: disconnect_def flush_queue_def Let_def rconn_disconnect_def split: prod.splits option.splits)

text \<open>
  Claim C5. Every state transition adds exactly 1 to \<open>seqno\<close> (in the arithmetic of
  \<open>unsigned int\<close>) when exactly one of the old and the new state is ACTIVE, and leaves it
  unchanged otherwise; so the parity of \<open>seqno\<close> changes if and only if the boundary between
  ACTIVE and the other states is crossed, and below the largest \<open>unsigned int\<close> the
  value read as a number grows by one.
\<close>

theorem state_transition_seqno_parity:
  "rc_seqno (state_transition rc st w)
     = (if (rc_state rc = S_ACTIVE) \<noteq> (st = S_ACTIVE) then rc_seqno rc + 1 else rc_seqno rc)
   \<and> (even (unat (rc_seqno (state_transition rc st w))) \<noteq> even (unat (rc_seqno rc))
        \<longleftrightarrow> (rc_state rc = S_ACTIVE) \<noteq> (st = S_ACTIVE))
   \<and> ((rc_state rc = S_ACTIVE) \<noteq> (st = S_ACTIVE) \<and> rc_seqno rc \<noteq> UINT_MAX
        \<longrightarrow> unat (rc_seqno (state_transition rc st w)) = unat (rc_seqno rc) + 1)"
  using u32_even_unat [of "rc_seqno rc + 1"] u32_even_unat [of "rc_seqno rc"]
    u32_unat_plus_one [of "rc_seqno rc"]
  by (simp add: state_transition_seqno UINT_MAX_def)

theorem state_transition_seqno_parity_witness:
  "((rc_state example_active = S_ACTIVE) \<noteq> (S_IDLE = S_ACTIVE)
      \<and> rc_seqno example_active \<noteq> UINT_MAX)
   \<and> unat (rc_seqno (state_transition example_active S_IDLE example_world))
       = unat (rc_seqno example_active) + 1"
  using state_transition_seqno_parity [of example_active S_IDLE example_world]
  by (simp add: example_active_def rconn_create_def rconn_set_probe_interval_def UINT_MAX_def)

text \<open>
  Claim C1. When \<open>disconnect\<close> runs on a reliable rconn and returns: if the clock has
  reached \<open>backoff_deadline\<close> the backoff is 1, otherwise it is
  \<open>MIN(max_backoff, MAX(1, 2 * backoff))\<close>; then \<open>backoff_deadline\<close> is the clock plus
  the new backoff and the state is BACKOFF. Wherever the doubling and the sum do not
  overflow, these are the minimum, maximum, product and sum of the integers.
\<close>

theorem disconnect_backoff:
  assumes "rc_reliable rc" and "disconnect rc w = Inr (rc', w')"
  shows "rc_backoff rc' = (if rc_backoff_deadline rc <=s time_now w then 1
                           else c_MIN (rc_max_backoff rc) (c_MAX 1 (2 * rc_backoff rc)))
       \<and> rc_backoff_deadline rc' = time_now w + scast (rc_backoff rc')
       \<and> rc_state rc' = S_BACKOFF
       \<and> (\<not> rc_backoff_deadline rc <=s time_now w
            \<and> - (2 ^ 30) \<le> sint (rc_backoff rc) \<and> sint (rc_backoff rc) < 2 ^ 30
          \<longrightarrow> sint (rc_backoff rc') = min (sint (rc_max_backoff rc)) (max 1 (2 * sint (rc_backoff rc))))
       \<and> (- (2 ^ 63) \<le> sint (time_now w) + sint (rc_backoff rc')
            \<and> sint (time_now w) + sint (rc_backoff rc') < 2 ^ 63
          \<longrightarrow> sint (rc_backoff_deadline rc') = sint (time_now w) + sint (rc_backoff rc'))"
proof -
  note d = disconnect_reliable [OF assms]
  have "sint (rc_backoff_deadline rc') = sint (time_now w) + sint (rc_backoff rc')"
    if "- (2 ^ 63) \<le> sint (time_now w) + sint (rc_backoff rc')"
      and "sint (time_now w) + sint (rc_backoff rc') < 2 ^ 63"
    using that sint_add_64 [of "time_now w" "scast (rc_backoff rc')"]
    by (simp add: d(3) sint_scast_64)
  moreover have "sint (rc_backoff rc') = min (sint (rc_max_backoff rc)) (max 1 (2 * sint (rc_backoff rc)))"
    if "\<not> rc_backoff_deadline rc <=s time_now w"
      and "- (2 ^ 30) \<le> sint (rc_backoff rc)" and "sint (rc_backoff rc) < 2 ^ 30"
    using that by (simp add: d(2) sint_c_MIN sint_c_MAX sint_double)
  ultimately show ?thesis using d(1,2,3) by simp
qed

theorem disconnect_backoff_witness:
  "rc_reliable example_active
   \<and> (\<exists>rc' w'. disconnect example_active example_world = Inr (rc', w')
        \<and> rc_backoff rc' = 4 \<and> rc_backoff_deadline rc' = 1004 \<and> rc_state rc' = S_BACKOFF)"
proof -
  have r: "rc_reliable example_active"
    by (simp add: example_active_def)
  obtain rc' w' where d: "disconnect example_active example_world = Inr (rc', w')"
    using disconnect_returns [of example_active example_world]
    by (auto simp: example_active_def rconn_create_def rconn_set_probe_interval_def)
  have "rc_backoff rc' = 4 \<and> rc_backoff_deadline rc' = 1004 \<and> rc_state rc' = S_BACKOFF"
    using disconnect_backoff [OF r d]
    by (simp add: example_active_def rconn_create_def rconn_set_probe_interval_def
          example_world_def time_now_def c_MIN_def c_MAX_def word_sless_alt word_sle_eq)
  with r d show ?thesis by blast
qed

lemmas example_defs =
  example_active_def example_world_def example_vconn_def example_counters_def example_buf_def
  rconn_create_def rconn_set_probe_interval_def time_now_def

lemmas eval_defs =
  c_MIN_def c_MAX_def word_sless_alt word_sle_eq EAGAIN_def ENOTCONN_def UINT_MAX_def
  TIME_MAX_def TIME_MIN_def sat_add_def


lemma counter_dec_fault:
  "rconn_packet_counter_dec c w = Inl e \<Longrightarrow> e = Wild_pointer \<or> e = Assertion_failed"
  by (auto simp: rconn_packet_counter_dec_def Let_def split: option.splits if_splits)

lemma counter_inc_fault: "rconn_packet_counter_inc c w = Inl e \<Longrightarrow> e = Wild_pointer"
  by (auto simp: rconn_packet_counter_inc_def split: option.splits)

lemma flush_loop_fault: "flush_loop bs w = Inl e \<Longrightarrow> e \<noteq> Null_counter"
proof (induction bs arbitrary: w)
  case Nil
  then show ?case by simp
next
  case (Cons b bs)
  then show ?case
    by (auto split: option.splits sum.splits dest: counter_dec_fault)
qed

lemma flush_queue_fault: "flush_queue rc w = Inl e \<Longrightarrow> e \<noteq> Null_counter"
  by (auto simp: flush_queue_def seq_def split: if_splits sum.splits dest: flush_loop_fault)

lemma disconnect_fault: "disconnect rc w = Inl e \<Longrightarrow> e \<noteq> Null_counter"
  by (auto simp: disconnect_def seq_def Let_def split: if_splits sum.splits prod.splits
           dest: flush_queue_fault)

lemma try_send_fault: "try_send rc w = Inl e \<Longrightarrow> e \<noteq> Null_counter"
  by (auto simp: try_send_def seq_def Let_def
           split: list.splits option.splits if_splits sum.splits prod.splits
           dest: disconnect_fault counter_dec_fault)

lemma rconn_send_fault: "rconn_send rc b counter w = Inl e \<Longrightarrow> e \<noteq> Null_counter"
  by (auto simp: rconn_send_def seq_def Let_def
           split: option.splits if_splits sum.splits prod.splits
           dest: try_send_fault counter_inc_fault)

lemma rconn_send_retval:
  "rconn_send rc b counter w = Inr (r, rc', w') \<Longrightarrow>
     (if rconn_is_connected rc then r = 0 else r = ENOTCONN \<and> rc' = rc \<and> w' = w)"
  by (auto simp: rconn_send_def seq_eq_Inr Let_def split: if_splits prod.splits)


lemma counter_dec_logs:
  "rconn_packet_counter_dec c w = Inr w' \<Longrightarrow> w_sent w' = w_sent w \<and> w_deleted w' = w_deleted w"
  by (auto simp: rconn_packet_counter_dec_def Let_def split: option.splits if_splits)

lemma counter_inc_logs:
  "rconn_packet_counter_inc c w = Inr w' \<Longrightarrow> w_sent w' = w_sent w \<and> w_deleted w' = w_deleted w"
  by (auto simp: rconn_packet_counter_inc_def split: option.splits)

lemma flush_loop_deleted:
  "flush_loop bs w = Inr w' \<Longrightarrow> set bs \<union> set (w_deleted w) \<subseteq> set (w_deleted w')"
proof (induction bs arbitrary: w)
  case Nil
  then show ?case by simp
next
  case (Cons b bs)
  from Cons.prems obtain w1 where
    w1: "(case b_private_p b of Some counter \<Rightarrow> rconn_packet_counter_dec counter w | None \<Rightarrow> Inr w) = Inr w1"
    and rest: "flush_loop bs (ofpbuf_delete (Some b) w1) = Inr w'"
    by (auto split: sum.splits)
  from w1 have "w_deleted w1 = w_deleted w"
    by (auto split: option.splits dest: counter_dec_logs)
  with Cons.IH [OF rest] show ?case
    by (auto simp: ofpbuf_delete_def)
qed

lemma flush_queue_deleted:
  "flush_queue rc w = Inr (rc', w') \<Longrightarrow> set (rc_txq rc) \<subseteq> set (w_deleted w')"
  by (auto simp: flush_queue_def seq_eq_Inr poll_immediate_wake_def split: if_splits
           dest!: flush_loop_deleted)

lemma rconn_disconnect_txq: "rc_txq (fst (rconn_disconnect rc w)) = rc_txq rc"
  by (simp add: rconn_disconnect_def set_vconn_name_def Let_def split: option.splits)

lemma disconnect_keeps_or_deletes:
  assumes "disconnect rc w = Inr (rc', w')"
  shows "set (rc_txq rc) \<subseteq> set (rc_txq rc') \<union> set (w_deleted w')"
proof (cases "rc_reliable rc")
  case False
  with assms have "rc' = fst (rconn_disconnect rc w)"
    by (auto simp: disconnect_def)
  then show ?thesis by (simp add: rconn_disconnect_txq)
next
  case True
  show ?thesis
  proof (cases "(state_val (rc_state rc)
                      AND (state_val S_CONNECTING OR state_val S_ACTIVE OR state_val S_IDLE)) \<noteq> 0")
    case flush: True
    with True assms obtain rc1 where "flush_queue (rc\<lparr>rc_vconn := None\<rparr>) (vconn_close (rc_vconn rc) w) = Inr (rc1, w')"
      by (auto simp: disconnect_def seq_eq_Inr Let_def split: if_splits)
    from flush_queue_deleted [OF this] show ?thesis by auto
  next
    case False
    with True assms have "rc_txq rc' = rc_txq rc"
      by (auto simp: disconnect_def seq_eq_Inr Let_def split: if_splits)
    then show ?thesis by simp
  qed
qed

lemma try_send_consumes:
  assumes "try_send rc w = Inr (r, rc', w')" and "x \<in> set (rc_txq rc)"
  shows "x \<in> set (rc_txq rc') \<or> (\<exists>v. (v, x) \<in> set (w_sent w')) \<or> x \<in> set (w_deleted w')"
proof -
  from assms obtain head "next" v where q: "rc_txq rc = head # next" and v: "rc_vconn rc = Some v"
    by (auto simp: try_send_def split: list.splits option.splits)
  obtain retval w1 where vs: "vconn_send v head w = (retval, w1)" by force
  show ?thesis
  proof (cases "retval = 0")
    case True
    with vs have sent: "(v, head) \<in> set (w_sent w1)"
      by (auto simp: vconn_send_def Let_def)
    from assms(1) q v vs True obtain w2 where
      dec: "(case b_private_p head of Some c \<Rightarrow> rconn_packet_counter_dec c w1 | None \<Rightarrow> Inr w1) = Inr w2"
      and res: "rc' = rc\<lparr>rc_packets_sent := rc_packets_sent rc + 1, rc_txq := next\<rparr>" "w' = w2"
      by (auto simp: try_send_def seq_eq_Inr Let_def)
    from dec have "w_sent w2 = w_sent w1"
      by (auto split: option.splits dest: counter_dec_logs)
    with sent res assms(2) q show ?thesis by auto
  next
    case False
    show ?thesis
    proof (cases "retval = EAGAIN")
      case True
      with assms(1) q v vs False have "rc' = rc"
        by (auto simp: try_send_def Let_def)
      with assms(2) show ?thesis by simp
    next
      case ne: False
      with assms(1) q v vs False have "disconnect rc w1 = Inr (rc', w')"
        by (auto simp: try_send_def seq_eq_Inr Let_def)
      from disconnect_keeps_or_deletes [OF this] assms(2) show ?thesis by auto
    qed
  qed
qed

lemma rconn_send_consumes:
  assumes "rconn_send rc b counter w = Inr (0, rc', w')"
  shows "b\<lparr>b_private_p := counter\<rparr> \<in> set (rc_txq rc')
         \<or> (\<exists>v. (v, b\<lparr>b_private_p := counter\<rparr>) \<in> set (w_sent w'))
         \<or> b\<lparr>b_private_p := counter\<rparr> \<in> set (w_deleted w')"
proof -
  from assms have conn: "rconn_is_connected rc"
    by (auto simp: rconn_send_def ENOTCONN_def split: if_splits)
  obtain rc1 w1 where cm: "copy_to_monitor rc b w = (rc1, w1)" by force
  let ?rc2 = "rc1\<lparr>rc_txq := rc_txq rc1 @ [b\<lparr>b_private_p := counter\<rparr>]\<rparr>"
  from assms conn cm have
    "(\<exists>w2 r. try_send ?rc2 w2 = Inr (r, rc', w')) \<or> rc' = ?rc2"
    by (auto simp: rconn_send_def seq_eq_Inr Let_def split: if_splits) blast
  then show ?thesis
  proof
    assume "\<exists>w2 r. try_send ?rc2 w2 = Inr (r, rc', w')"
    then obtain w2 r where "try_send ?rc2 w2 = Inr (r, rc', w')" by blast
    from try_send_consumes [OF this, of "b\<lparr>b_private_p := counter\<rparr>"] show ?thesis by simp
  next
    assume "rc' = ?rc2"
    then show ?thesis by simp
  qed
qed


text \<open>
  Claim C6. On an rconn whose state is neither ACTIVE nor IDLE, \<open>rconn_send\<close> returns
  \<open>ENOTCONN\<close> and leaves the rconn and the world as they were: the buffer is neither
  queued nor deleted nor handed to a transport, no copy goes to a monitor and no counter
  changes.
\<close>

theorem rconn_send_not_connected:
  assumes "rc_state rc \<notin> {S_ACTIVE, S_IDLE}"
  shows "rconn_send rc b counter w = Inr (ENOTCONN, rc, w) \<and> ENOTCONN \<noteq> 0"
  using assms by (simp add: rconn_send_def rconn_is_connected_def is_connected_state_iff ENOTCONN_def)

theorem rconn_send_not_connected_witness:
  "rc_state (rconn_create 5 8 example_counters) \<notin> {S_ACTIVE, S_IDLE}
   \<and> rconn_send (rconn_create 5 8 example_counters) example_buf (Some 7) example_counters
       = Inr (ENOTCONN, rconn_create 5 8 example_counters, example_counters)"
proof -
  have h: "rc_state (rconn_create 5 8 example_counters) \<notin> {S_ACTIVE, S_IDLE}"
    by (simp add: rconn_create_def rconn_set_probe_interval_def)
  show ?thesis
    using h rconn_send_not_connected [OF h, of example_buf "Some 7" example_counters] by simp
qed

text \<open>
  Claim C7. With a counter whose \<open>n\<close> has reached the limit, \<open>rconn_send_with_limit\<close>
  returns \<open>EAGAIN\<close>, deletes the buffer and changes nothing else, the counter included.
  When the inner \<open>rconn_send\<close> returns an error, that error is returned and the buffer is
  deleted. On every path that returns, the buffer is consumed: deleted when the result is
  an error; otherwise tagged with the counter and then in the send queue, handed to the
  transport, or deleted with the queue on a disconnect.
\<close>

theorem send_with_limit_consumes:
  assumes "w_counters w c = Some pc"
  shows "(queue_limit \<le> pc_n pc \<longrightarrow>
            rconn_send_with_limit rc b (Some c) queue_limit w
              = Inr (EAGAIN, rc, w\<lparr>w_deleted := w_deleted w @ [b]\<rparr>))
       \<and> (\<forall>e rc1 w1. \<not> queue_limit \<le> pc_n pc \<and> rconn_send rc b (Some c) w = Inr (e, rc1, w1) \<and> e \<noteq> 0 \<longrightarrow>
            rconn_send_with_limit rc b (Some c) queue_limit w
              = Inr (e, rc1, w1\<lparr>w_deleted := w_deleted w1 @ [b]\<rparr>))
       \<and> (\<forall>r rc' w'. rconn_send_with_limit rc b (Some c) queue_limit w = Inr (r, rc', w') \<longrightarrow>
            (if r \<noteq> 0 then rc' = rc \<and> w' = w\<lparr>w_deleted := w_deleted w @ [b]\<rparr>
             else b\<lparr>b_private_p := Some c\<rparr> \<in> set (rc_txq rc')
                  \<or> (\<exists>v. (v, b\<lparr>b_private_p := Some c\<rparr>) \<in> set (w_sent w'))
                  \<or> b\<lparr>b_private_p := Some c\<rparr> \<in> set (w_deleted w')))"
proof (intro conjI allI impI)
  assume "queue_limit \<le> pc_n pc"
  then show "rconn_send_with_limit rc b (Some c) queue_limit w
               = Inr (EAGAIN, rc, w\<lparr>w_deleted := w_deleted w @ [b]\<rparr>)"
    using assms by (simp add: rconn_send_with_limit_def EAGAIN_def ofpbuf_delete_def)
next
  fix e rc1 w1
  assume "\<not> queue_limit \<le> pc_n pc \<and> rconn_send rc b (Some c) w = Inr (e, rc1, w1) \<and> e \<noteq> 0"
  then show "rconn_send_with_limit rc b (Some c) queue_limit w
               = Inr (e, rc1, w1\<lparr>w_deleted := w_deleted w1 @ [b]\<rparr>)"
    using assms by (simp add: rconn_send_with_limit_def ofpbuf_delete_def)
next
  fix r rc' w'
  assume res: "rconn_send_with_limit rc b (Some c) queue_limit w = Inr (r, rc', w')"
  show "if r \<noteq> 0 then rc' = rc \<and> w' = w\<lparr>w_deleted := w_deleted w @ [b]\<rparr>
        else b\<lparr>b_private_p := Some c\<rparr> \<in> set (rc_txq rc')
             \<or> (\<exists>v. (v, b\<lparr>b_private_p := Some c\<rparr>) \<in> set (w_sent w'))
             \<or> b\<lparr>b_private_p := Some c\<rparr> \<in> set (w_deleted w')"
  proof (cases "queue_limit \<le> pc_n pc")
    case True
    with res assms show ?thesis
      by (auto simp: rconn_send_with_limit_def EAGAIN_def ofpbuf_delete_def)
  next
    case False
    with res assms obtain e rc1 w1 where
      s: "rconn_send rc b (Some c) w = Inr (e, rc1, w1)"
      and out: "(if e \<noteq> 0 then Inr (e, rc1, ofpbuf_delete (Some b) w1) else Inr (e, rc1, w1))
                  = (Inr (r, rc', w') :: fault + c_int \<times> rconn \<times> world)"
      by (auto simp: rconn_send_with_limit_def seq_eq_Inr)
    show ?thesis
    proof (cases "e = 0")
      case True
      with out have "r = 0" "rc' = rc1" "w' = w1" by auto
      with s True rconn_send_consumes [of rc b "Some c" w rc' w'] show ?thesis by simp
    next
      case ne: False
      with rconn_send_retval [OF s] have "rc1 = rc" "w1 = w"
        by (auto split: if_splits)
      with out ne show ?thesis by (auto simp: ofpbuf_delete_def)
    qed
  qed
qed

theorem send_with_limit_consumes_witness:
  "w_counters example_counters 7 = Some \<lparr>pc_n = 5, pc_ref_cnt = 1\<rparr>
   \<and> (5 :: c_int) \<le> pc_n \<lparr>pc_n = 5, pc_ref_cnt = 1\<rparr>
   \<and> rconn_send_with_limit example_active example_buf (Some 7) 5 example_counters
       = Inr (EAGAIN, example_active, example_counters\<lparr>w_deleted := [example_buf]\<rparr>)
   \<and> \<not> (6 :: c_int) \<le> pc_n \<lparr>pc_n = 5, pc_ref_cnt = 1\<rparr>
   \<and> rconn_send (rconn_create 5 8 example_counters) example_buf (Some 7) example_counters
       = Inr (ENOTCONN, rconn_create 5 8 example_counters, example_counters)
   \<and> ENOTCONN \<noteq> 0
   \<and> rconn_send_with_limit (rconn_create 5 8 example_counters) example_buf (Some 7) 6 example_counters
       = Inr (ENOTCONN, rconn_create 5 8 example_counters, example_counters\<lparr>w_deleted := [example_buf]\<rparr>)"
proof -
  have c: "w_counters example_counters 7 = Some \<lparr>pc_n = 5, pc_ref_cnt = 1\<rparr>"
    by (simp add: example_counters_def)
  have s: "rconn_send (rconn_create 5 8 example_counters) example_buf (Some 7) example_counters
       = Inr (ENOTCONN, rconn_create 5 8 example_counters, example_counters)"
    by (simp add: rconn_send_def rconn_is_connected_def is_connected_state_def example_defs)
  have d: "w_deleted example_counters = []"
    by (simp add: example_defs)
  show ?thesis
    using send_with_limit_consumes [OF c, of 5 example_active example_buf]
      send_with_limit_consumes [OF c, of 6 "rconn_create 5 8 example_counters" example_buf] c s d
    by (simp add: ENOTCONN_def)
qed

text \<open>
  Claim C10. \<open>rconn_send_with_limit\<close> stops on a null counter, whatever the rconn, the
  buffer, the limit and the world are, and only then does it stop for that reason;
  \<open>rconn_send\<close> never stops on a null counter, and with one it answers \<open>ENOTCONN\<close> when
  the rconn is not connected.
\<close>

theorem send_with_limit_null_counter:
  "(rconn_send_with_limit rc b counter queue_limit w = Inl Null_counter \<longleftrightarrow> counter = None)
   \<and> rconn_send rc b None w \<noteq> Inl Null_counter
   \<and> (\<not> rconn_is_connected rc \<longrightarrow> rconn_send rc b None w = Inr (ENOTCONN, rc, w))"
proof -
  have "rconn_send_with_limit rc b (Some c) queue_limit w \<noteq> Inl Null_counter" for c
    by (auto simp: rconn_send_with_limit_def seq_def
             split: option.splits sum.splits if_splits prod.splits dest: rconn_send_fault)
  moreover have "rconn_send_with_limit rc b None queue_limit w = Inl Null_counter"
    by (simp add: rconn_send_with_limit_def)
  moreover have "rconn_send rc b None w \<noteq> Inl Null_counter"
    using rconn_send_fault by blast
  moreover have "\<not> rconn_is_connected rc \<Longrightarrow> rconn_send rc b None w = Inr (ENOTCONN, rc, w)"
    by (simp add: rconn_send_def)
  ultimately show ?thesis by (cases counter) auto
qed

theorem send_with_limit_null_counter_witness:
  "rconn_send_with_limit example_active example_buf None 5 example_counters = Inl Null_counter
   \<and> \<not> rconn_is_connected (rconn_create 5 8 example_counters)
   \<and> rconn_send (rconn_create 5 8 example_counters) example_buf None example_counters
       = Inr (ENOTCONN, rconn_create 5 8 example_counters, example_counters)"
proof -
  have h: "\<not> rconn_is_connected (rconn_create 5 8 example_counters)"
    by (simp add: rconn_is_connected_def is_connected_state_iff rconn_create_def
          rconn_set_probe_interval_def)
  show ?thesis
    using h send_with_limit_null_counter [of example_active example_buf None 5 example_counters]
      send_with_limit_null_counter [of "rconn_create 5 8 example_counters" example_buf None 5
        example_counters]
    by simp
qed

lemma bit_two_power_u32: "bit (2 ^ c :: 32 word) t \<longleftrightarrow> c = t \<and> t < 32"
  by (auto simp: bit_simps)

lemma one_shifted_and: "t < 32 \<Longrightarrow> ((2 ^ t :: 32 word) AND m) \<noteq> 0 \<longleftrightarrow> bit m t"
proof -
  assume t: "t < 32"
  have "((2 ^ t :: 32 word) AND m) = 0 \<longleftrightarrow> \<not> bit m t"
  proof
    assume z: "(2 ^ t :: 32 word) AND m = 0"
    have "bit ((2 ^ t :: 32 word) AND m) t = (bit m t)"
      using t by (simp add: bit_and_iff bit_two_power_u32)
    with z show "\<not> bit m t" by simp
  next
    assume n: "\<not> bit m t"
    show "(2 ^ t :: 32 word) AND m = 0"
    proof (rule bit_word_eqI)
      fix k assume "k < LENGTH(32)"
      show "bit ((2 ^ t :: 32 word) AND m) k = bit (0 :: 32 word) k"
        using n by (auto simp: bit_and_iff bit_two_power_u32)
    qed
  qed
  then show ?thesis by simp
qed

lemma bit_pre_admission_mask:
  "bit (pre_admission_mask T) t \<longleftrightarrow> t < 32 \<and> t \<in> spec_pre_admission_codes T"
  unfolding pre_admission_mask_def spec_pre_admission_codes_def push_bit_of_1
    bit_or_iff bit_two_power_u32
  by blast

lemma is_admitted_msg_iff:
  assumes "2 \<le> length (b_data b)"
  shows "is_admitted_msg T b = Inr (unat (b_data b ! 1) \<notin> spec_pre_admission_codes T \<or> 32 \<le> b_data b ! 1)"
proof -
  have lt: "unat (b_data b ! 1) < 32 \<longleftrightarrow> b_data b ! 1 < 32"
    by (simp add: word_less_nat_alt)
  show ?thesis
  proof (cases "b_data b ! 1 < 32")
    case True
    with lt have "unat (b_data b ! 1) < 32" by simp
    from one_shifted_and [OF this, of "pre_admission_mask T"] True assms lt show ?thesis
      by (auto simp: is_admitted_msg_def Let_def bit_pre_admission_mask not_le push_bit_of_1)
  next
    case False
    with assms show ?thesis
      by (simp add: is_admitted_msg_def Let_def not_less)
  qed
qed

lemma vconn_send_now [simp]: "w_now (snd (vconn_send v b w)) = w_now w"
  by (simp add: vconn_send_def Let_def)

lemma copy_loop_now: "w_now (snd (snd (copy_loop i clone ms b w))) = w_now w"
proof (induction i clone ms b w rule: copy_loop.induct)
  case (1 i clone ms b w)
  show ?case
  proof (cases "i < length ms")
    case False
    then show ?thesis by (simp add: copy_loop.simps [of i clone ms b w])
  next
    case True
    let ?c = "case clone of None \<Rightarrow> ofpbuf_clone b | Some c \<Rightarrow> c"
    let ?r = "vconn_send (ms ! i) ?c w"
    from True "1.IH"(1) [OF True refl refl refl]
      "1.IH"(2) [OF True refl refl refl] "1.IH"(3) [OF True refl refl refl]
    show ?thesis
      by (simp add: copy_loop.simps [of i clone ms b w] Let_def)
  qed
qed

lemma copy_to_monitor_rc: "fst (copy_to_monitor rc b w) = rc\<lparr>rc_monitors := fst (copy_loop 0 None (rc_monitors rc) b w)\<rparr>"
  by (simp add: copy_to_monitor_def split: prod.splits)

lemma copy_to_monitor_now: "time_now (snd (copy_to_monitor rc b w)) = time_now w"
  using copy_loop_now [of 0 None "rc_monitors rc" b w]
  by (auto simp: copy_to_monitor_def time_now_def ofpbuf_delete_def split: prod.splits option.splits)

lemma connected_mask_iff:
  "(state_val st AND (state_val S_ACTIVE OR state_val S_IDLE)) \<noteq> 0 \<longleftrightarrow> st = S_ACTIVE \<or> st = S_IDLE"
  by (cases st) simp_all


text \<open>
  Claim C8. A recv that succeeds (the rconn is connected and the transport delivers a
  message, which holds at least the two bytes up to its type) returns the message, and
  it sets \<open>probably_admitted\<close> and stores the clock in \<open>last_admitted\<close> if and only if
  the type byte at offset 1 is not one of the ten pre-admission codes (every type from 32
  on is none of them), or \<open>probably_admitted\<close> was set already, or
  \<open>now - last_connected >= 30\<close> (the subtraction and the signed comparison of \<open>time_t\<close>);
  otherwise both fields stay as they were.
\<close>

theorem rconn_recv_admission:
  assumes st: "rc_state rc \<in> {S_ACTIVE, S_IDLE}"
    and v: "rc_vconn rc = Some v"
    and rcv: "w_recv w (w_recv_n w) = (0, buffer)"
    and len: "2 \<le> length (b_data buffer)"
  shows "\<exists>rc' w'. rconn_recv T rc w = Inr (Some buffer, rc', w')
     \<and> (if (unat (b_data buffer ! 1) \<notin> spec_pre_admission_codes T \<or> 32 \<le> b_data buffer ! 1)
            \<or> rc_probably_admitted rc
            \<or> 30 <=s time_now w - rc_last_connected rc
         then rc_probably_admitted rc' \<and> rc_last_admitted rc' = time_now w
         else rc_probably_admitted rc' = rc_probably_admitted rc
              \<and> rc_last_admitted rc' = rc_last_admitted rc)
     \<and> (rc_probably_admitted rc' \<and> rc_last_admitted rc' = time_now w
          \<longleftrightarrow> (unat (b_data buffer ! 1) \<notin> spec_pre_admission_codes T \<or> 32 \<le> b_data buffer ! 1)
              \<or> rc_probably_admitted rc
              \<or> 30 <=s time_now w - rc_last_connected rc)"
proof -
  let ?w1 = "w\<lparr>w_recv_n := Suc (w_recv_n w)\<rparr>"
  obtain rc1 w2 where cm: "copy_to_monitor rc buffer ?w1 = (rc1, w2)" by force
  have rc1: "rc1 = rc\<lparr>rc_monitors := fst (copy_loop 0 None (rc_monitors rc) buffer ?w1)\<rparr>"
    using copy_to_monitor_rc [of rc buffer ?w1] cm by simp
  have now: "time_now w2 = time_now w"
    using copy_to_monitor_now [of rc buffer ?w1] cm by (simp add: time_now_def)
  have conn: "(state_val (rc_state rc) AND (state_val S_ACTIVE OR state_val S_IDLE)) \<noteq> 0"
    using st by auto
  have vr: "vconn_recv w = (0, buffer, ?w1)"
    using rcv by (simp add: vconn_recv_def)
  have idle: "is_connected_state S_IDLE"
    by (simp add: is_connected_state_iff)
  show ?thesis
    using conn
    by (simp add: rconn_recv_def v vr cm now is_admitted_msg_iff [OF len] rc1 Let_def
          state_transition_def idle rconn_is_connected_def del: state_val.simps)
qed

theorem rconn_recv_admission_witness:
  "rc_state example_active \<in> {S_ACTIVE, S_IDLE}
   \<and> rc_vconn example_active = Some example_vconn
   \<and> w_recv (example_receiving example_buf) (w_recv_n (example_receiving example_buf)) = (0, example_buf)
   \<and> 2 \<le> length (b_data example_buf)
   \<and> (\<exists>rc' w'. rconn_recv openflow_1_0 example_active (example_receiving example_buf)
                   = Inr (Some example_buf, rc', w')
         \<and> rc_probably_admitted rc' \<and> rc_last_admitted rc' = 1000)
   \<and> w_recv (example_receiving example_hello) (w_recv_n (example_receiving example_hello)) = (0, example_hello)
   \<and> 2 \<le> length (b_data example_hello)
   \<and> (\<exists>rc' w'. rconn_recv openflow_1_0 (example_active\<lparr>rc_last_admitted := 990\<rparr>) (example_receiving example_hello)
                   = Inr (Some example_hello, rc', w')
         \<and> \<not> rc_probably_admitted rc' \<and> rc_last_admitted rc' = 990)"
proof -
  have st: "rc_state example_active \<in> {S_ACTIVE, S_IDLE}"
    and st': "rc_state (example_active\<lparr>rc_last_admitted := 990\<rparr>) \<in> {S_ACTIVE, S_IDLE}"
    by (simp_all add: example_active_def)
  have v: "rc_vconn example_active = Some example_vconn"
    and v': "rc_vconn (example_active\<lparr>rc_last_admitted := 990\<rparr>) = Some example_vconn"
    by (simp_all add: example_active_def)
  have r: "w_recv (example_receiving b) (w_recv_n (example_receiving b)) = (0, b)" for b
    by (simp add: example_receiving_def)
  have l: "2 \<le> length (b_data example_buf)" "2 \<le> length (b_data example_hello)"
    by (simp_all add: example_buf_def example_hello_def)
  have a: "\<exists>rc' w'. rconn_recv openflow_1_0 example_active (example_receiving example_buf)
                   = Inr (Some example_buf, rc', w')
         \<and> rc_probably_admitted rc' \<and> rc_last_admitted rc' = 1000"
    using rconn_recv_admission [OF st v r l(1), of openflow_1_0]
    by (simp add: example_defs example_receiving_def spec_pre_admission_codes_def openflow_1_0_def)
  have b: "\<exists>rc' w'. rconn_recv openflow_1_0 (example_active\<lparr>rc_last_admitted := 990\<rparr>) (example_receiving example_hello)
                   = Inr (Some example_hello, rc', w')
         \<and> \<not> rc_probably_admitted rc' \<and> rc_last_admitted rc' = 990"
    using rconn_recv_admission [OF st' v' r l(2), of openflow_1_0]
    by (simp add: example_defs example_receiving_def spec_pre_admission_codes_def openflow_1_0_def
          example_hello_def word_sle_eq) blast
  from st v r l a b show ?thesis by blast
qed

lemma keeps_peer_refl [simp]: "keeps_peer rc w rc w"
  by (simp add: keeps_peer_def)

lemma keeps_peer_trans:
  "keeps_peer rc w rc1 w1 \<Longrightarrow> keeps_peer rc1 w1 rc2 w2 \<Longrightarrow> keeps_peer rc w rc2 w2"
  by (auto simp: keeps_peer_def)

lemma counter_dec_world:
  "rconn_packet_counter_dec c w = Inr w' \<Longrightarrow>
     w_open w' = w_open w \<and> w_open_n w' = w_open_n w \<and> w_now w' = w_now w"
  by (auto simp: rconn_packet_counter_dec_def Let_def split: option.splits if_splits)

lemma counter_inc_world:
  "rconn_packet_counter_inc c w = Inr w' \<Longrightarrow>
     w_open w' = w_open w \<and> w_open_n w' = w_open_n w \<and> w_now w' = w_now w"
  by (auto simp: rconn_packet_counter_inc_def split: option.splits)

lemma flush_loop_world:
  "flush_loop bs w = Inr w' \<Longrightarrow>
     w_open w' = w_open w \<and> w_open_n w' = w_open_n w \<and> w_now w' = w_now w"
proof (induction bs arbitrary: w)
  case Nil
  then show ?case by simp
next
  case (Cons b bs)
  from Cons.prems obtain w1 where
    w1: "(case b_private_p b of Some counter \<Rightarrow> rconn_packet_counter_dec counter w | None \<Rightarrow> Inr w) = Inr w1"
    and rest: "flush_loop bs (ofpbuf_delete (Some b) w1) = Inr w'"
    by (auto split: sum.splits)
  from w1 have "w_open w1 = w_open w \<and> w_open_n w1 = w_open_n w \<and> w_now w1 = w_now w"
    by (auto split: option.splits dest: counter_dec_world)
  with Cons.IH [OF rest] show ?case
    by (simp add: ofpbuf_delete_def)
qed

lemma flush_queue_keeps: "flush_queue rc w = Inr (rc', w') \<Longrightarrow> keeps_peer rc w rc' w'"
  by (auto simp: flush_queue_def seq_eq_Inr keeps_peer_def poll_immediate_wake_def
           split: if_splits dest!: flush_loop_world)

lemma rconn_disconnect_keeps:
  "rconn_disconnect rc w = (rc', w') \<Longrightarrow> \<not> rc_reliable rc \<Longrightarrow> keeps_peer rc w rc' w'"
  by (auto simp: rconn_disconnect_def keeps_peer_def Let_def set_vconn_name_def vconn_close_def
           split: if_splits option.splits)

lemma disconnect_keeps: "disconnect rc w = Inr (rc', w') \<Longrightarrow> keeps_peer rc w rc' w'"
proof (cases "rc_reliable rc")
  case False
  assume "disconnect rc w = Inr (rc', w')"
  with False have "rconn_disconnect rc w = (rc', w')" by (simp add: disconnect_def)
  from rconn_disconnect_keeps [OF this False] show ?thesis .
next
  case True
  assume d: "disconnect rc w = Inr (rc', w')"
  note r = disconnect_reliable [OF True d]
  from True d obtain rc1 where
    f: "(if (state_val (rc_state rc)
                      AND (state_val S_CONNECTING OR state_val S_ACTIVE OR state_val S_IDLE)) \<noteq> 0
         then flush_queue (rc\<lparr>rc_vconn := None\<rparr>) (vconn_close (rc_vconn rc) w)
         else Inr (rc, w)) = Inr (rc1, w')"
    and nm: "rc_name rc' = rc_name rc1"
    by (auto simp: disconnect_def seq_eq_Inr Let_def split: if_splits)
  from f have "keeps_peer rc w rc1 w'"
    by (auto simp: keeps_peer_def vconn_close_def split: if_splits option.splits
             dest!: flush_queue_keeps)
  with r nm True show ?thesis by (simp add: keeps_peer_def)
qed

lemma vconn_send_world [simp]:
  "w_open (snd (vconn_send v b w)) = w_open w"
  "w_open_n (snd (vconn_send v b w)) = w_open_n w"
  by (simp_all add: vconn_send_def Let_def)

lemma copy_loop_world:
  "w_open (snd (snd (copy_loop i clone ms b w))) = w_open w
   \<and> w_open_n (snd (snd (copy_loop i clone ms b w))) = w_open_n w"
proof (induction i clone ms b w rule: copy_loop.induct)
  case (1 i clone ms b w)
  show ?case
  proof (cases "i < length ms")
    case False
    then show ?thesis by (simp add: copy_loop.simps [of i clone ms b w])
  next
    case True
    from True "1.IH"(1) [OF True refl refl refl]
      "1.IH"(2) [OF True refl refl refl] "1.IH"(3) [OF True refl refl refl]
    show ?thesis
      by (simp add: copy_loop.simps [of i clone ms b w] Let_def)
  qed
qed

lemma copy_to_monitor_keeps: "copy_to_monitor rc b w = (rc', w') \<Longrightarrow> keeps_peer rc w rc' w'"
  using copy_loop_world [of 0 None "rc_monitors rc" b w] copy_loop_now [of 0 None "rc_monitors rc" b w]
  by (auto simp: copy_to_monitor_def keeps_peer_def ofpbuf_delete_def
           split: prod.splits option.splits)

lemma try_send_keeps: "try_send rc w = Inr (r, rc', w') \<Longrightarrow> keeps_peer rc w rc' w'"
proof -
  assume ts: "try_send rc w = Inr (r, rc', w')"
  then obtain head "next" v where q: "rc_txq rc = head # next" and v: "rc_vconn rc = Some v"
    by (auto simp: try_send_def split: list.splits option.splits)
  obtain retval w1 where vs: "vconn_send v head w = (retval, w1)" by force
  have k1: "keeps_peer rc w rc w1"
    using vs vconn_send_world [of v head w] vconn_send_now [of v head w]
    by (simp add: keeps_peer_def)
  show ?thesis
  proof (cases "retval = 0")
    case True
    with ts q v vs obtain w2 where
      dec: "(case b_private_p head of Some c \<Rightarrow> rconn_packet_counter_dec c w1 | None \<Rightarrow> Inr w1) = Inr w2"
      and res: "rc' = rc\<lparr>rc_packets_sent := rc_packets_sent rc + 1, rc_txq := next\<rparr>" "w' = w2"
      by (auto simp: try_send_def seq_eq_Inr Let_def)
    from dec have "w_open w2 = w_open w1 \<and> w_open_n w2 = w_open_n w1 \<and> w_now w2 = w_now w1"
      by (auto split: option.splits dest: counter_dec_world)
    with k1 res show ?thesis by (simp add: keeps_peer_def)
  next
    case False
    show ?thesis
    proof (cases "retval = EAGAIN")
      case True
      with ts q v vs False have "rc' = rc" "w' = w1"
        by (auto simp: try_send_def Let_def)
      with k1 show ?thesis by simp
    next
      case ne: False
      with ts q v vs False have "disconnect rc w1 = Inr (rc', w')"
        by (auto simp: try_send_def seq_eq_Inr Let_def)
      from keeps_peer_trans [OF k1 disconnect_keeps [OF this]] show ?thesis .
    qed
  qed
qed

lemma keeps_peer_txq [simp]:
  "keeps_peer (rc\<lparr>rc_txq := q\<rparr>) w rc' w' = keeps_peer rc w rc' w'"
  "keeps_peer rc w (rc'\<lparr>rc_txq := q\<rparr>) w' = keeps_peer rc w rc' w'"
  by (simp_all add: keeps_peer_def)

lemma rconn_send_keeps: "rconn_send rc b counter w = Inr (r, rc', w') \<Longrightarrow> keeps_peer rc w rc' w'"
proof (cases "rconn_is_connected rc")
  case False
  assume "rconn_send rc b counter w = Inr (r, rc', w')"
  with False show ?thesis by (simp add: rconn_send_def)
next
  case True
  assume s: "rconn_send rc b counter w = Inr (r, rc', w')"
  obtain rc1 w1 where cm: "copy_to_monitor rc b w = (rc1, w1)" by force
  note k1 = copy_to_monitor_keeps [OF cm]
  let ?rc2 = "rc1\<lparr>rc_txq := rc_txq rc1 @ [b\<lparr>b_private_p := counter\<rparr>]\<rparr>"
  from s True cm obtain w2 where
    inc: "(case counter of Some c \<Rightarrow> rconn_packet_counter_inc c w1 | None \<Rightarrow> Inr w1) = Inr w2"
    and alt: "(\<exists>r1. try_send ?rc2 w2 = Inr (r1, rc', w')) \<or> (rc' = ?rc2 \<and> w' = w2)"
    by (auto simp: rconn_send_def seq_eq_Inr Let_def split: if_splits)
  from inc have "w_open w2 = w_open w1 \<and> w_open_n w2 = w_open_n w1 \<and> w_now w2 = w_now w1"
    by (auto split: option.splits dest: counter_inc_world)
  with k1 have k2: "keeps_peer rc w ?rc2 w2" by (simp add: keeps_peer_def)
  from alt show ?thesis
  proof
    assume "\<exists>r1. try_send ?rc2 w2 = Inr (r1, rc', w')"
    then obtain r1 where "try_send ?rc2 w2 = Inr (r1, rc', w')" ..
    from keeps_peer_trans [OF k2 try_send_keeps [OF this]] show ?thesis .
  next
    assume "rc' = ?rc2 \<and> w' = w2"
    with k2 show ?thesis by simp
  qed
qed

lemma do_tx_loop_keeps: "do_tx_loop rc w = Inr (rc', w') \<Longrightarrow> keeps_peer rc w rc' w'"
proof (induction rc w rule: do_tx_loop.induct)
  case (1 rc w)
  show ?case
  proof (cases "0 < length (rc_txq rc)")
    case False
    with "1.prems" show ?thesis by (simp add: do_tx_loop.simps [of rc w])
  next
    case True
    with "1.prems" obtain r where ts: "try_send rc w = Inr r"
      by (auto simp: do_tx_loop.simps [of rc w] split: sum.splits)
    have k1: "keeps_peer rc w (fst (snd r)) (snd (snd r))"
      using try_send_keeps [of rc w "fst r" "fst (snd r)" "snd (snd r)"] ts by simp
    show ?thesis
    proof (cases "fst r = 0")
      case False
      with "1.prems" True ts have "rc' = fst (snd r)" "w' = snd (snd r)"
        by (auto simp: do_tx_loop.simps [of rc w])
      with k1 show ?thesis by simp
    next
      case e: True
      with "1.prems" True ts have dl: "do_tx_loop (fst (snd r)) (snd (snd r)) = Inr (rc', w')"
        by (auto simp: do_tx_loop.simps [of rc w])
      from e have "\<not> fst r \<noteq> 0" by simp
      from keeps_peer_trans [OF k1 "1.IH" [OF True ts this dl]] show ?thesis .
    qed
  qed
qed

lemma do_tx_work_keeps: "do_tx_work rc w = Inr (rc', w') \<Longrightarrow> keeps_peer rc w rc' w'"
proof (cases "rc_txq rc = []")
  case True
  assume "do_tx_work rc w = Inr (rc', w')"
  with True show ?thesis by (simp add: do_tx_work_def)
next
  case False
  assume "do_tx_work rc w = Inr (rc', w')"
  with False obtain w1 where l: "do_tx_loop rc w = Inr (rc', w1)"
    and w': "w' = (if rc_txq rc' = [] then poll_immediate_wake w1 else w1)"
    by (auto simp: do_tx_work_def seq_eq_Inr)
  from do_tx_loop_keeps [OF l] w' show ?thesis
    by (simp add: keeps_peer_def poll_immediate_wake_def)
qed

lemma keeps_peer_state_transition [simp]:
  "keeps_peer (state_transition rc st w0) w rc' w' = keeps_peer rc w rc' w'"
  "keeps_peer rc w (state_transition rc' st w0) w' = keeps_peer rc w rc' w'"
  by (simp_all add: keeps_peer_def)

lemma keeps_peer_question [simp]:
  "keeps_peer (question_connectivity rc w0) w rc' w' = keeps_peer rc w rc' w'"
  by (simp add: keeps_peer_def)

lemma run_ACTIVE_keeps: "run_ACTIVE rc w = Inr (rc', w') \<Longrightarrow> keeps_peer rc w rc' w'"
  by (auto simp: run_ACTIVE_def seq_eq_Inr Let_def split: if_splits
           dest!: do_tx_work_keeps rconn_send_keeps)

lemma run_IDLE_keeps: "run_IDLE rc w = Inr (rc', w') \<Longrightarrow> keeps_peer rc w rc' w'"
  by (auto simp: run_IDLE_def split: if_splits dest!: do_tx_work_keeps disconnect_keeps)

lemma run_CONNECTING_keeps: "run_CONNECTING rc w = Inr (rc', w') \<Longrightarrow> keeps_peer rc w rc' w'"
  by (auto simp: run_CONNECTING_def vconn_connect_def keeps_peer_def Let_def
           split: option.splits if_splits dest!: disconnect_keeps)

lemma keeps_peer_run: "keeps_peer rc w rc' w' \<Longrightarrow> run_keeps_peer rc w rc' w'"
  by (simp add: keeps_peer_def run_keeps_peer_def)

lemma run_keeps_peer_trans:
  assumes a: "run_keeps_peer rc w rc1 w1" and b: "run_keeps_peer rc1 w1 rc2 w2"
  shows "run_keeps_peer rc w rc2 w2"
proof -
  have "rc_local_ip rc2 = rc_local_ip rc \<and> rc_remote_ip rc2 = rc_remote_ip rc
        \<and> rc_remote_port rc2 = rc_remote_port rc"
    if r: "rc_reliable rc"
      and f: "\<forall>i. w_open_n w \<le> i \<and> i < w_open_n w2 \<longrightarrow> fst (w_open w i (rc_name rc)) \<noteq> 0"
  proof -
    from a r have r1: "rc_reliable rc1" and n1: "rc_name rc1 = rc_name rc"
      by (simp_all add: run_keeps_peer_def)
    from a b have le: "w_open_n w \<le> w_open_n w1" "w_open_n w1 \<le> w_open_n w2"
      and o: "w_open w1 = w_open w"
      by (simp_all add: run_keeps_peer_def)
    from f le have f1: "\<forall>i. w_open_n w \<le> i \<and> i < w_open_n w1 \<longrightarrow> fst (w_open w i (rc_name rc)) \<noteq> 0"
      by auto
    from f le o n1 have f2: "\<forall>i. w_open_n w1 \<le> i \<and> i < w_open_n w2 \<longrightarrow> fst (w_open w1 i (rc_name rc1)) \<noteq> 0"
      by auto
    from a r f1 b r1 f2 show ?thesis
      by (simp add: run_keeps_peer_def)
  qed
  with a b show ?thesis
    by (auto simp: run_keeps_peer_def)
qed

lemma reconnect_result:
  assumes "reconnect rc w = Inr (r, rc', w')"
  shows "r = fst (w_open w (w_open_n w) (rc_name rc))"
    and "w_open w' = w_open w" and "w_open_n w' = Suc (w_open_n w)" and "w_now w' = w_now w"
    and "rc_probe_interval rc' = rc_probe_interval rc"
    and "rc_reliable rc \<Longrightarrow> rc_reliable rc' \<and> rc_name rc' = rc_name rc"
    and "rc_reliable rc \<Longrightarrow> r \<noteq> 0 \<Longrightarrow>
           rc_local_ip rc' = rc_local_ip rc \<and> rc_remote_ip rc' = rc_remote_ip rc
           \<and> rc_remote_port rc' = rc_remote_port rc \<and> rc_state rc' = S_BACKOFF"
    and "r = 0 \<Longrightarrow>
           rc_local_ip rc' = vc_local_ip (snd (w_open w (w_open_n w) (rc_name rc)))
           \<and> rc_remote_ip rc' = vc_remote_ip (snd (w_open w (w_open_n w) (rc_name rc)))
           \<and> rc_remote_port rc' = vc_remote_port (snd (w_open w (w_open_n w) (rc_name rc)))
           \<and> rc_state rc' = S_CONNECTING"
proof -
  obtain retval v where o: "w_open w (w_open_n w) (rc_name rc) = (retval, v)" by force
  let ?w1 = "w\<lparr>w_open_n := Suc (w_open_n w)\<rparr>"
  let ?rc1 = "rc\<lparr>rc_n_attempted_connections := rc_n_attempted_connections rc + 1\<rparr>"
  have vo: "vconn_open (rc_name rc) w = (retval, if retval = 0 then Some v else None, ?w1)"
    using o by (simp add: vconn_open_def)
  show "r = fst (w_open w (w_open_n w) (rc_name rc))"
    using assms o vo by (auto simp: reconnect_def Let_def seq_eq_Inr split: if_splits)
  then have r: "r = retval" using o by simp
  show "r = 0 \<Longrightarrow>
           rc_local_ip rc' = vc_local_ip (snd (w_open w (w_open_n w) (rc_name rc)))
           \<and> rc_remote_ip rc' = vc_remote_ip (snd (w_open w (w_open_n w) (rc_name rc)))
           \<and> rc_remote_port rc' = vc_remote_port (snd (w_open w (w_open_n w) (rc_name rc)))
           \<and> rc_state rc' = S_CONNECTING"
    using assms o vo r by (auto simp: reconnect_def Let_def)
  have k: "keeps_peer rc ?w1 rc' w'" if "retval \<noteq> 0"
  proof -
    from assms vo that have "disconnect (?rc1\<lparr>rc_vconn := None, rc_backoff_deadline := TIME_MAX\<rparr>) ?w1 = Inr (rc', w')"
      by (auto simp: reconnect_def Let_def seq_eq_Inr)
    from disconnect_keeps [OF this] show ?thesis by (simp add: keeps_peer_def)
  qed
  have s: "rc_state rc' = S_BACKOFF" if "retval \<noteq> 0" "rc_reliable rc"
  proof -
    from assms vo that have "disconnect (?rc1\<lparr>rc_vconn := None, rc_backoff_deadline := TIME_MAX\<rparr>) ?w1 = Inr (rc', w')"
      by (auto simp: reconnect_def Let_def seq_eq_Inr)
    from disconnect_reliable(1) [OF _ this] that show ?thesis by simp
  qed
  have ok: "w' = ?w1 \<and> rc_probe_interval rc' = rc_probe_interval rc
            \<and> rc_reliable rc' = rc_reliable rc \<and> rc_name rc' = rc_name rc" if "retval = 0"
    using assms vo that by (auto simp: reconnect_def Let_def)
  show "w_open w' = w_open w" "w_open_n w' = Suc (w_open_n w)" "w_now w' = w_now w"
    "rc_probe_interval rc' = rc_probe_interval rc"
    using k ok by (cases "retval = 0"; simp add: keeps_peer_def)+
  show "rc_reliable rc \<Longrightarrow> rc_reliable rc' \<and> rc_name rc' = rc_name rc"
    using k ok by (cases "retval = 0"; simp add: keeps_peer_def)
  show "rc_reliable rc \<Longrightarrow> r \<noteq> 0 \<Longrightarrow>
           rc_local_ip rc' = rc_local_ip rc \<and> rc_remote_ip rc' = rc_remote_ip rc
           \<and> rc_remote_port rc' = rc_remote_port rc \<and> rc_state rc' = S_BACKOFF"
    using k s r by (simp add: keeps_peer_def)
qed

lemma reconnect_run_keeps:
  assumes "reconnect rc w = Inr (r, rc', w')"
  shows "run_keeps_peer rc w rc' w'"
proof -
  note rr = reconnect_result [OF assms]
  have "r \<noteq> 0"
    if "\<forall>i. w_open_n w \<le> i \<and> i < w_open_n w' \<longrightarrow> fst (w_open w i (rc_name rc)) \<noteq> 0"
    using that rr(1,3) by simp
  with rr show ?thesis
    by (auto simp: run_keeps_peer_def)
qed

lemma run_state_keeps:
  assumes "run_state rc w = Inr (rc', w')"
  shows "run_keeps_peer rc w rc' w'"
proof (cases "rc_state rc")
  case S_VOID
  with assms show ?thesis by (simp add: run_state_def run_VOID_def keeps_peer_run)
next
  case S_BACKOFF
  with assms show ?thesis
    by (auto simp: run_state_def run_BACKOFF_def seq_eq_Inr keeps_peer_run split: if_splits
             dest: reconnect_run_keeps)
next
  case S_CONNECTING
  with assms show ?thesis
    by (simp add: run_state_def keeps_peer_run run_CONNECTING_keeps)
next
  case S_ACTIVE
  with assms show ?thesis by (simp add: run_state_def keeps_peer_run run_ACTIVE_keeps)
next
  case S_IDLE
  with assms show ?thesis by (simp add: run_state_def keeps_peer_run run_IDLE_keeps)
qed

lemma rconn_run_keeps:
  "rconn_run k rc w = Some (Inr (rc', w')) \<Longrightarrow> run_keeps_peer rc w rc' w'"
proof (induction k arbitrary: rc w)
  case 0
  then show ?case by simp
next
  case (Suc k)
  from Suc.prems obtain rc1 w1 where rs: "run_state rc w = Inr (rc1, w1)"
    by (auto split: sum.splits)
  note k1 = run_state_keeps [OF rs]
  show ?case
  proof (cases "rc_state rc1 \<noteq> rc_state rc")
    case True
    with Suc.prems rs have "rconn_run k rc1 w1 = Some (Inr (rc', w'))" by simp
    from run_keeps_peer_trans [OF k1 Suc.IH [OF this]] show ?thesis .
  next
    case False
    with Suc.prems rs have "rc' = rc1" "w' = w1" by simp_all
    with k1 show ?thesis by simp
  qed
qed

lemma disconnect_closes:
  assumes "rc_reliable rc" and "disconnect rc w = Inr (rc', w')"
    and "rc_state rc \<in> {S_CONNECTING, S_ACTIVE, S_IDLE}"
  shows "rc_vconn rc' = None"
proof -
  from assms(3) have "(state_val (rc_state rc)
            AND (state_val S_CONNECTING OR state_val S_ACTIVE OR state_val S_IDLE)) \<noteq> 0"
    by auto
  with assms(1,2) show ?thesis
    by (auto simp: disconnect_def seq_eq_Inr Let_def dest!: flush_queue_Inr split: if_splits)
qed

text \<open>
  Claim C9. On a reliable rconn \<open>disconnect\<close> ends in BACKOFF with the transport closed and
  \<open>local_ip\<close>, \<open>remote_ip\<close> and \<open>remote_port\<close> as they were. A reconnect whose
  \<open>vconn_open\<close> fails leaves them too, and one whose \<open>vconn_open\<close> succeeds stores the
  addresses of the new transport. A whole \<open>rconn_run\<close>, however many rounds it takes,
  leaves them if every \<open>vconn_open\<close> it made has failed. \<open>set_vconn_name\<close> clears them.
\<close>

theorem disconnect_keeps_addresses:
  assumes "rc_reliable rc"
  shows "(\<forall>rc' w'. disconnect rc w = Inr (rc', w') \<longrightarrow>
            rc_state rc' = S_BACKOFF
            \<and> (rc_state rc \<in> {S_CONNECTING, S_ACTIVE, S_IDLE} \<longrightarrow> rc_vconn rc' = None)
            \<and> rc_local_ip rc' = rc_local_ip rc \<and> rc_remote_ip rc' = rc_remote_ip rc
            \<and> rc_remote_port rc' = rc_remote_port rc)
       \<and> (\<forall>r rc' w'. reconnect rc w = Inr (r, rc', w') \<longrightarrow>
            (if fst (w_open w (w_open_n w) (rc_name rc)) \<noteq> 0
             then rc_state rc' = S_BACKOFF
                  \<and> rc_local_ip rc' = rc_local_ip rc \<and> rc_remote_ip rc' = rc_remote_ip rc
                  \<and> rc_remote_port rc' = rc_remote_port rc
             else rc_state rc' = S_CONNECTING
                  \<and> rc_local_ip rc' = vc_local_ip (snd (w_open w (w_open_n w) (rc_name rc)))
                  \<and> rc_remote_ip rc' = vc_remote_ip (snd (w_open w (w_open_n w) (rc_name rc)))
                  \<and> rc_remote_port rc' = vc_remote_port (snd (w_open w (w_open_n w) (rc_name rc)))))
       \<and> (\<forall>k rc' w'. rconn_run k rc w = Some (Inr (rc', w'))
              \<and> (\<forall>i. w_open_n w \<le> i \<and> i < w_open_n w' \<longrightarrow> fst (w_open w i (rc_name rc)) \<noteq> 0) \<longrightarrow>
            rc_local_ip rc' = rc_local_ip rc \<and> rc_remote_ip rc' = rc_remote_ip rc
            \<and> rc_remote_port rc' = rc_remote_port rc)
       \<and> rc_local_ip (set_vconn_name rc nm) = 0 \<and> rc_remote_ip (set_vconn_name rc nm) = 0
       \<and> rc_remote_port (set_vconn_name rc nm) = 0"
proof (intro conjI allI impI)
  fix rc' w'
  assume d: "disconnect rc w = Inr (rc', w')"
  from disconnect_reliable [OF assms d]
  show "rc_state rc' = S_BACKOFF" "rc_local_ip rc' = rc_local_ip rc"
    "rc_remote_ip rc' = rc_remote_ip rc" "rc_remote_port rc' = rc_remote_port rc"
    by simp_all
  assume "rc_state rc \<in> {S_CONNECTING, S_ACTIVE, S_IDLE}"
  from disconnect_closes [OF assms d this] show "rc_vconn rc' = None" .
next
  fix r rc' w'
  assume "reconnect rc w = Inr (r, rc', w')"
  from reconnect_result(1,7,8) [OF this] assms
  show "if fst (w_open w (w_open_n w) (rc_name rc)) \<noteq> 0
        then rc_state rc' = S_BACKOFF
             \<and> rc_local_ip rc' = rc_local_ip rc \<and> rc_remote_ip rc' = rc_remote_ip rc
             \<and> rc_remote_port rc' = rc_remote_port rc
        else rc_state rc' = S_CONNECTING
             \<and> rc_local_ip rc' = vc_local_ip (snd (w_open w (w_open_n w) (rc_name rc)))
             \<and> rc_remote_ip rc' = vc_remote_ip (snd (w_open w (w_open_n w) (rc_name rc)))
             \<and> rc_remote_port rc' = vc_remote_port (snd (w_open w (w_open_n w) (rc_name rc)))"
    by simp
next
  fix k rc' w'
  assume a: "rconn_run k rc w = Some (Inr (rc', w'))
     \<and> (\<forall>i. w_open_n w \<le> i \<and> i < w_open_n w' \<longrightarrow> fst (w_open w i (rc_name rc)) \<noteq> 0)"
  then have "run_keeps_peer rc w rc' w'" by (blast intro: rconn_run_keeps)
  with a assms
  show "rc_local_ip rc' = rc_local_ip rc" "rc_remote_ip rc' = rc_remote_ip rc"
    "rc_remote_port rc' = rc_remote_port rc"
    by (simp_all add: run_keeps_peer_def)
qed (simp_all add: set_vconn_name_def)

theorem disconnect_keeps_addresses_witness:
  "rc_reliable example_active
   \<and> (\<exists>rc' w'. disconnect example_active example_world = Inr (rc', w')
         \<and> rc_state rc' = S_BACKOFF \<and> rc_vconn rc' = None
         \<and> rc_local_ip rc' = 0x0A000002 \<and> rc_remote_ip rc' = 0x0A000001
         \<and> rc_remote_port rc' = 6633)
   \<and> rc_reliable example_backoff
   \<and> (\<exists>rc' w'. rconn_run 2 example_backoff example_world = Some (Inr (rc', w'))
         \<and> w_open_n w' = 1 \<and> rc_state rc' = S_BACKOFF \<and> rc_backoff rc' = 4
         \<and> rc_local_ip rc' = 0x0A000002 \<and> rc_remote_ip rc' = 0x0A000001
         \<and> rc_remote_port rc' = 6633)"
proof -
  have r: "rc_reliable example_active" and r': "rc_reliable example_backoff"
    by (simp_all add: example_active_def example_backoff_def)
  have st: "rc_state example_active = S_ACTIVE"
    by (simp add: example_active_def)
  have ip: "rc_local_ip example_active = 0x0A000002 \<and> rc_remote_ip example_active = 0x0A000001
            \<and> rc_remote_port example_active = 6633"
    "rc_local_ip example_backoff = 0x0A000002 \<and> rc_remote_ip example_backoff = 0x0A000001
            \<and> rc_remote_port example_backoff = 6633"
    by (simp_all add: example_active_def example_backoff_def)
  obtain rc' w' where d: "disconnect example_active example_world = Inr (rc', w')"
    using disconnect_returns [of example_active example_world]
    by (auto simp: example_active_def rconn_create_def rconn_set_probe_interval_def)
  have to: "timed_out example_backoff example_world"
    by (simp add: timed_out_def timeout_def timeout_BACKOFF_def example_backoff_def
          example_defs eval_defs)
  have "\<exists>rc2 w2. reconnect example_backoff example_world = Inr (111, rc2, w2)
          \<and> rc_state rc2 = S_BACKOFF \<and> w_open_n w2 = 1 \<and> rc_backoff rc2 = 4"
    by (simp add: reconnect_def vconn_open_def disconnect_def Let_def
          example_backoff_def example_defs eval_defs)
  then obtain rc2 w2 where rec: "reconnect example_backoff example_world = Inr (111, rc2, w2)"
    and b: "rc_state rc2 = S_BACKOFF" "rc_backoff rc2 = 4" and n: "w_open_n w2 = 1"
    by blast
  have sb: "rc_state example_backoff = S_BACKOFF"
    by (simp add: example_backoff_def)
  have rs: "run_state example_backoff example_world = Inr (rc2, w2)"
    using to rec sb by (simp add: run_state_def run_BACKOFF_def)
  have run: "rconn_run 2 example_backoff example_world = Some (Inr (rc2, w2))"
    using rs b(1) sb by (simp add: numeral_2_eq_2)
  have f: "w_open_n example_world = 0"
    "\<And>i. fst (w_open example_world i (rc_name example_backoff)) \<noteq> 0"
    by (simp_all add: example_world_def)
  from disconnect_keeps_addresses [OF r, of example_world] d st ip(1)
  have "rc_state rc' = S_BACKOFF \<and> rc_vconn rc' = None
         \<and> rc_local_ip rc' = 0x0A000002 \<and> rc_remote_ip rc' = 0x0A000001
         \<and> rc_remote_port rc' = 6633"
    by simp
  moreover from disconnect_keeps_addresses [OF r', of example_world] run f ip(2)
  have "rc_local_ip rc2 = 0x0A000002 \<and> rc_remote_ip rc2 = 0x0A000001
         \<and> rc_remote_port rc2 = 6633"
    by simp blast
  ultimately show ?thesis using r r' d run n b by blast
qed

lemma not_TIME_MAX_sle: "x \<noteq> TIME_MAX \<Longrightarrow> \<not> TIME_MAX <=s x"
proof -
  assume ne: "x \<noteq> TIME_MAX"
  have "sint x < 2 ^ 63" using sint_lt [of x] by simp
  moreover have "sint x \<noteq> sint TIME_MAX" using ne by (auto dest: signed_word_eqI)
  ultimately show ?thesis by (simp add: word_sle_eq TIME_MAX_def)
qed

lemma timed_out_clock: "w_now w' = w_now w \<Longrightarrow> timed_out rc w' = timed_out rc w"
  by (simp add: timed_out_def time_now_def)

lemma run_CONNECTING_timeout_reliable:
  assumes "rc_state rc = S_CONNECTING" and "rc_reliable rc" and "rc_vconn rc = Some v"
    and "w_connect w (w_connect_n w) = EAGAIN" and "timed_out rc w"
    and "time_now w \<noteq> TIME_MAX"
  shows "(\<forall>rc' w'. run_CONNECTING rc w = Inr (rc', w') \<longrightarrow>
            rc_state rc' = S_BACKOFF
            \<and> rc_backoff rc' = c_MIN (rc_max_backoff rc) (c_MAX 1 (2 * rc_backoff rc))
            \<and> rc_backoff_deadline rc' = time_now w + scast (rc_backoff rc')
            \<and> (- (2 ^ 30) \<le> sint (rc_backoff rc) \<and> sint (rc_backoff rc) < 2 ^ 30 \<longrightarrow>
                 sint (rc_backoff rc') = min (sint (rc_max_backoff rc)) (max 1 (2 * sint (rc_backoff rc)))))
       \<and> (rc_txq rc = [] \<longrightarrow> (\<exists>rc' w'. run_CONNECTING rc w = Inr (rc', w')))"
proof -
  let ?w1 = "w\<lparr>w_connect_n := Suc (w_connect_n w)\<rparr>"
  let ?rc1 = "rc\<lparr>rc_backoff_deadline := TIME_MAX\<rparr>"
  have to: "timed_out rc ?w1"
    using assms(5) timed_out_clock [of ?w1 w rc] by simp
  have run: "run_CONNECTING rc w = disconnect ?rc1 ?w1"
    using assms(3,4) to by (simp add: run_CONNECTING_def vconn_connect_def EAGAIN_def)
  have now: "time_now ?w1 = time_now w" by (simp add: time_now_def)
  have nd: "\<not> rc_backoff_deadline ?rc1 <=s time_now ?w1"
    using not_TIME_MAX_sle [OF assms(6)] now by simp
  have r1: "rc_reliable ?rc1" using assms(2) by simp
  have "rc_state rc' = S_BACKOFF
        \<and> rc_backoff rc' = c_MIN (rc_max_backoff rc) (c_MAX 1 (2 * rc_backoff rc))
        \<and> rc_backoff_deadline rc' = time_now w + scast (rc_backoff rc')
        \<and> (- (2 ^ 30) \<le> sint (rc_backoff rc) \<and> sint (rc_backoff rc) < 2 ^ 30 \<longrightarrow>
             sint (rc_backoff rc') = min (sint (rc_max_backoff rc)) (max 1 (2 * sint (rc_backoff rc))))"
    if "run_CONNECTING rc w = Inr (rc', w')" for rc' w'
  proof -
    from that run have d: "disconnect ?rc1 ?w1 = Inr (rc', w')" by simp
    from disconnect_reliable(1,2,3) [OF r1 d] nd now
    show ?thesis by (simp add: sint_c_MIN sint_c_MAX sint_double)
  qed
  moreover have "\<exists>rc' w'. run_CONNECTING rc w = Inr (rc', w')" if "rc_txq rc = []"
    using disconnect_returns [of ?rc1 ?w1] that run by simp
  ultimately show ?thesis by blast
qed

lemma sat_add_UINT_MAX: "sat_add x UINT_MAX = UINT_MAX"
proof (cases "x = 0")
  case True
  then show ?thesis by (simp add: sat_add_def UINT_MAX_def)
next
  case False
  have e: "x + UINT_MAX = x - 1" by (simp add: UINT_MAX_def)
  have "\<not> x \<le> x - 1"
  proof -
    from False have "unat x \<noteq> 0" by (simp add: unat_eq_0)
    moreover from False have "unat (x - 1) = unat x - 1" by (rule unat_minus_one)
    ultimately show ?thesis by (simp add: word_le_nat_alt)
  qed
  then show ?thesis unfolding sat_add_def e by simp
qed

lemma timed_out_ACTIVE_probe_zero:
  assumes "rc_state rc = S_ACTIVE" and "rc_probe_interval rc = 0"
  shows "timed_out rc w \<longleftrightarrow> 0xFFFFFFFF <=s time_now w"
  using assms
  by (simp add: timed_out_def timeout_def timeout_ACTIVE_def sat_add_UINT_MAX)
     (simp add: UINT_MAX_def)

lemma disconnect_state: "disconnect rc w = Inr (rc', w') \<Longrightarrow> rc_state rc' = S_BACKOFF \<or> rc_state rc' = S_VOID"
proof (cases "rc_reliable rc")
  case True
  assume "disconnect rc w = Inr (rc', w')"
  from disconnect_reliable(1) [OF True this] show ?thesis by simp
next
  case False
  assume "disconnect rc w = Inr (rc', w')"
  with False show ?thesis
    by (auto simp: disconnect_def rconn_disconnect_def Let_def split: if_splits option.splits)
qed

lemma try_send_state:
  "try_send rc w = Inr (r, rc', w') \<Longrightarrow>
     rc_state rc' = rc_state rc \<or> rc_state rc' = S_BACKOFF \<or> rc_state rc' = S_VOID"
  by (auto simp: try_send_def seq_eq_Inr Let_def
           split: list.splits option.splits prod.splits if_splits dest: disconnect_state)

lemma copy_to_monitor_state [simp]: "rc_state (fst (copy_to_monitor rc b w)) = rc_state rc"
  by (simp add: copy_to_monitor_rc)

lemma rconn_send_state:
  "rconn_send rc b counter w = Inr (r, rc', w') \<Longrightarrow>
     rc_state rc' = rc_state rc \<or> rc_state rc' = S_BACKOFF \<or> rc_state rc' = S_VOID"
proof (cases "rconn_is_connected rc")
  case False
  assume "rconn_send rc b counter w = Inr (r, rc', w')"
  with False show ?thesis by (simp add: rconn_send_def)
next
  case True
  assume s: "rconn_send rc b counter w = Inr (r, rc', w')"
  obtain rc1 w1 where cm: "copy_to_monitor rc b w = (rc1, w1)" by force
  have st: "rc_state rc1 = rc_state rc"
    using copy_to_monitor_state [of rc b w] cm by simp
  let ?rc2 = "rc1\<lparr>rc_txq := rc_txq rc1 @ [b\<lparr>b_private_p := counter\<rparr>]\<rparr>"
  from s True cm have
    "(\<exists>w2 r1. try_send ?rc2 w2 = Inr (r1, rc', w')) \<or> rc' = ?rc2"
    by (auto simp: rconn_send_def seq_eq_Inr Let_def split: if_splits) blast
  then show ?thesis
  proof
    assume "\<exists>w2 r1. try_send ?rc2 w2 = Inr (r1, rc', w')"
    then obtain w2 r1 where "try_send ?rc2 w2 = Inr (r1, rc', w')" by blast
    from try_send_state [OF this] st show ?thesis by simp
  next
    assume "rc' = ?rc2"
    with st show ?thesis by simp
  qed
qed

lemma do_tx_loop_state:
  "do_tx_loop rc w = Inr (rc', w') \<Longrightarrow>
     rc_state rc' = rc_state rc \<or> rc_state rc' = S_BACKOFF \<or> rc_state rc' = S_VOID"
proof (induction rc w rule: do_tx_loop.induct)
  case (1 rc w)
  show ?case
  proof (cases "0 < length (rc_txq rc)")
    case False
    with "1.prems" show ?thesis by (simp add: do_tx_loop.simps [of rc w])
  next
    case True
    with "1.prems" obtain r where ts: "try_send rc w = Inr r"
      by (auto simp: do_tx_loop.simps [of rc w] split: sum.splits)
    have k1: "rc_state (fst (snd r)) = rc_state rc \<or> rc_state (fst (snd r)) = S_BACKOFF
              \<or> rc_state (fst (snd r)) = S_VOID"
      using try_send_state [of rc w "fst r" "fst (snd r)" "snd (snd r)"] ts by simp
    show ?thesis
    proof (cases "fst r = 0")
      case False
      with "1.prems" True ts have "rc' = fst (snd r)"
        by (auto simp: do_tx_loop.simps [of rc w])
      with k1 show ?thesis by simp
    next
      case e: True
      with "1.prems" True ts have dl: "do_tx_loop (fst (snd r)) (snd (snd r)) = Inr (rc', w')"
        by (auto simp: do_tx_loop.simps [of rc w])
      from e have "\<not> fst r \<noteq> 0" by simp
      from "1.IH" [OF True ts this dl] k1 show ?thesis by auto
    qed
  qed
qed

lemma do_tx_work_state:
  "do_tx_work rc w = Inr (rc', w') \<Longrightarrow>
     rc_state rc' = rc_state rc \<or> rc_state rc' = S_BACKOFF \<or> rc_state rc' = S_VOID"
proof (cases "rc_txq rc = []")
  case True
  assume "do_tx_work rc w = Inr (rc', w')"
  with True show ?thesis by (simp add: do_tx_work_def)
next
  case False
  assume "do_tx_work rc w = Inr (rc', w')"
  with False obtain w1 where l: "do_tx_loop rc w = Inr (rc', w1)"
    by (auto simp: do_tx_work_def seq_eq_Inr)
  from do_tx_loop_state [OF l] show ?thesis .
qed

lemma reconnect_state:
  "reconnect rc w = Inr (r, rc', w') \<Longrightarrow>
     rc_state rc' = S_CONNECTING \<or> rc_state rc' = S_BACKOFF \<or> rc_state rc' = S_VOID"
  by (auto simp: reconnect_def seq_eq_Inr Let_def
           split: prod.splits if_splits option.splits dest: disconnect_state)

lemma run_state_not_idle:
  assumes "run_state rc w = Inr (rc', w')" and "rc_state rc \<noteq> S_IDLE"
    and "rc_state rc = S_ACTIVE \<longrightarrow> \<not> timed_out rc w"
  shows "rc_state rc' \<noteq> S_IDLE"
proof (cases "rc_state rc")
  case S_VOID
  with assms show ?thesis by (simp add: run_state_def run_VOID_def)
next
  case S_BACKOFF
  with assms show ?thesis
    by (auto simp: run_state_def run_BACKOFF_def seq_eq_Inr split: if_splits dest: reconnect_state)
next
  case S_CONNECTING
  with assms show ?thesis
    by (auto simp: run_state_def run_CONNECTING_def Let_def
             split: option.splits prod.splits if_splits dest: disconnect_state)
next
  case S_ACTIVE
  with assms show ?thesis
    by (auto simp: run_state_def run_ACTIVE_def dest: do_tx_work_state)
next
  case S_IDLE
  with assms show ?thesis by simp
qed

lemma rconn_run_not_idle:
  assumes "rconn_run k rc w = Some (Inr (rc', w'))"
    and "rc_probe_interval rc = 0" and "rc_state rc \<noteq> S_IDLE"
    and "\<not> 0xFFFFFFFF <=s time_now w"
  shows "rc_state rc' \<noteq> S_IDLE \<and> rc_probe_interval rc' = 0"
  using assms
proof (induction k arbitrary: rc w)
  case 0
  then show ?case by simp
next
  case (Suc k)
  from Suc.prems(1) obtain rc1 w1 where rs: "run_state rc w = Inr (rc1, w1)"
    by (auto split: sum.splits)
  from run_state_keeps [OF rs] Suc.prems(2,4)
  have p1: "rc_probe_interval rc1 = 0" and n1: "\<not> 0xFFFFFFFF <=s time_now w1"
    by (simp_all add: run_keeps_peer_def time_now_def)
  have "rc_state rc = S_ACTIVE \<longrightarrow> \<not> timed_out rc w"
    using Suc.prems(2,4) by (simp add: timed_out_ACTIVE_probe_zero)
  from run_state_not_idle [OF rs Suc.prems(3) this] have s1: "rc_state rc1 \<noteq> S_IDLE" .
  show ?case
  proof (cases "rc_state rc1 \<noteq> rc_state rc")
    case True
    with Suc.prems(1) rs have "rconn_run k rc1 w1 = Some (Inr (rc', w'))" by simp
    from Suc.IH [OF this p1 s1 n1] show ?thesis .
  next
    case False
    with Suc.prems(1) rs have "rc' = rc1" by simp
    with p1 s1 show ?thesis by simp
  qed
qed

lemma run_state_round_not_idle:
  assumes rs: "run_state rc w = Inr (rc', w')"
    and p: "rc_probe_interval rc = 0" and s: "rc_state rc \<noteq> S_IDLE"
    and n: "time_now w <s 0xFFFFFFFF"
  shows "rc_state rc' \<noteq> S_IDLE" "rc_probe_interval rc' = 0" "time_now w' = time_now w"
proof -
  from run_state_keeps [OF rs] p
  show "rc_probe_interval rc' = 0" "time_now w' = time_now w"
    by (simp_all add: run_keeps_peer_def time_now_def)
  from n have "\<not> 0xFFFFFFFF <=s time_now w" by (simp add: word_sless_alt word_sle_eq)
  with p have "rc_state rc = S_ACTIVE \<longrightarrow> \<not> timed_out rc w"
    by (simp add: timed_out_ACTIVE_probe_zero)
  from run_state_not_idle [OF rs s this] show "rc_state rc' \<noteq> S_IDLE" .
qed

lemma run_rounds_not_idle:
  assumes "run_rounds ts rc w = Inr (rc', w')"
    and "rc_probe_interval rc = 0" and "rc_state rc \<noteq> S_IDLE"
    and "\<forall>t \<in> set ts. t <s 0xFFFFFFFF"
  shows "rc_state rc' \<noteq> S_IDLE \<and> rc_probe_interval rc' = 0"
  using assms
proof (induction ts arbitrary: rc w)
  case Nil
  then show ?case by simp
next
  case (Cons t ts)
  from Cons.prems(1) obtain rc1 w1 where rs: "run_state rc (w\<lparr>w_now := t\<rparr>) = Inr (rc1, w1)"
    and rest: "run_rounds ts rc1 w1 = Inr (rc', w')"
    by (auto split: sum.splits)
  from Cons.prems(4) have "time_now (w\<lparr>w_now := t\<rparr>) <s 0xFFFFFFFF" by (simp add: time_now_def)
  from run_state_round_not_idle(1,2) [OF rs Cons.prems(2,3) this]
  have "rc_state rc1 \<noteq> S_IDLE" "rc_probe_interval rc1 = 0" .
  from Cons.IH [OF rest this(2) this(1)] Cons.prems(4) show ?case by simp
qed

lemma rconn_run_rounds:
  "rconn_run k rc w = Some (Inr (rc', w')) \<Longrightarrow>
     \<exists>n. run_rounds (replicate n (time_now w)) rc w = Inr (rc', w')"
proof (induction k arbitrary: rc w)
  case 0
  then show ?case by simp
next
  case (Suc k)
  from Suc.prems obtain rc1 w1 where rs: "run_state rc w = Inr (rc1, w1)"
    by (auto split: sum.splits)
  have same: "w\<lparr>w_now := time_now w\<rparr> = w" by (simp add: time_now_def)
  from run_state_keeps [OF rs] have t1: "time_now w1 = time_now w"
    by (simp add: run_keeps_peer_def time_now_def)
  show ?case
  proof (cases "rc_state rc1 \<noteq> rc_state rc")
    case True
    with Suc.prems rs have "rconn_run k rc1 w1 = Some (Inr (rc', w'))" by simp
    from Suc.IH [OF this] t1 obtain n where
      "run_rounds (replicate n (time_now w)) rc1 w1 = Inr (rc', w')" by auto
    with rs same have "run_rounds (replicate (Suc n) (time_now w)) rc w = Inr (rc', w')" by simp
    then show ?thesis by blast
  next
    case False
    with Suc.prems rs have "rc' = rc1" "w' = w1" by simp_all
    with rs same have "run_rounds (replicate (Suc 0) (time_now w)) rc w = Inr (rc', w')" by simp
    then show ?thesis by blast
  qed
qed

text \<open>
  Claim C2, as amended. With \<open>probe_interval = 0\<close> and the clock below \<open>UINT_MAX\<close>
  (4294967295 seconds) the inactivity timeout of ACTIVE does not fire, and no round of the
  loop of \<open>rconn_run\<close> takes an rconn that is not in IDLE into IDLE: the handler of the
  current state leaves it outside IDLE, with the probe interval still 0 and the clock as
  it was, so the next round starts as this one did. Hence no sequence of rounds, and no
  sequence of calls of \<open>rconn_run\<close>, with clock readings below that bound enters IDLE.
  (The timeout of ACTIVE is the sentinel \<open>UINT_MAX\<close>, which the clock reaches. The
  timeout of IDLE is \<open>probe_interval\<close> itself, so with 0 it fires at once; the amended
  claim says nothing about an rconn that is in IDLE.)
\<close>

theorem probe_zero_never_idle:
  assumes "rc_probe_interval rc = 0"
  shows "(rc_state rc = S_ACTIVE \<and> time_now w <s 0xFFFFFFFF \<longrightarrow> \<not> timed_out rc w)
       \<and> (\<forall>rc' w'. rc_state rc \<noteq> S_IDLE \<and> time_now w <s 0xFFFFFFFF
              \<and> run_state rc w = Inr (rc', w') \<longrightarrow>
            rc_state rc' \<noteq> S_IDLE \<and> rc_probe_interval rc' = 0 \<and> time_now w' = time_now w)
       \<and> (\<forall>ts rc' w'. rc_state rc \<noteq> S_IDLE \<and> (\<forall>t \<in> set ts. t <s 0xFFFFFFFF)
              \<and> run_rounds ts rc w = Inr (rc', w') \<longrightarrow>
            rc_state rc' \<noteq> S_IDLE \<and> rc_probe_interval rc' = 0)
       \<and> (\<forall>cs rc' w'. rc_state rc \<noteq> S_IDLE \<and> (\<forall>c \<in> set cs. snd c <s 0xFFFFFFFF)
              \<and> run_calls cs rc w = Some (Inr (rc', w')) \<longrightarrow>
            rc_state rc' \<noteq> S_IDLE \<and> rc_probe_interval rc' = 0)"
proof (intro conjI allI impI)
  assume "rc_state rc = S_ACTIVE \<and> time_now w <s 0xFFFFFFFF"
  with assms show "\<not> timed_out rc w"
    by (simp add: timed_out_ACTIVE_probe_zero word_sless_alt word_sle_eq)
next
  fix rc' w'
  assume a: "rc_state rc \<noteq> S_IDLE \<and> time_now w <s 0xFFFFFFFF \<and> run_state rc w = Inr (rc', w')"
  then have rs: "run_state rc w = Inr (rc', w')" and s: "rc_state rc \<noteq> S_IDLE"
    and n: "time_now w <s 0xFFFFFFFF" by simp_all
  from run_state_round_not_idle [OF rs assms s n]
  show "rc_state rc' \<noteq> S_IDLE" "rc_probe_interval rc' = 0" "time_now w' = time_now w" .
next
  fix ts rc' w'
  assume a: "rc_state rc \<noteq> S_IDLE \<and> (\<forall>t \<in> set ts. t <s 0xFFFFFFFF)
              \<and> run_rounds ts rc w = Inr (rc', w')"
  then have rr: "run_rounds ts rc w = Inr (rc', w')" and s: "rc_state rc \<noteq> S_IDLE"
    and n: "\<forall>t \<in> set ts. t <s 0xFFFFFFFF" by simp_all
  from run_rounds_not_idle [OF rr assms s n]
  show "rc_state rc' \<noteq> S_IDLE" "rc_probe_interval rc' = 0" by simp_all
next
  fix cs rc' w'
  assume a: "rc_state rc \<noteq> S_IDLE \<and> (\<forall>c \<in> set cs. snd c <s 0xFFFFFFFF)
              \<and> run_calls cs rc w = Some (Inr (rc', w'))"
  have "rc_state rc' \<noteq> S_IDLE \<and> rc_probe_interval rc' = 0"
    if "rc_probe_interval rc = 0" "rc_state rc \<noteq> S_IDLE" "\<forall>c \<in> set cs. snd c <s 0xFFFFFFFF"
      "run_calls cs rc w = Some (Inr (rc', w'))" for rc w
    using that
  proof (induction cs arbitrary: rc w)
    case Nil
    then show ?case by simp
  next
    case (Cons c cs)
    obtain k t where c: "c = (k, t)" by (cases c) auto
    from Cons.prems(4) c obtain rc1 w1 where
      r: "rconn_run k rc (w\<lparr>w_now := t\<rparr>) = Some (Inr (rc1, w1))"
      and rest: "run_calls cs rc1 w1 = Some (Inr (rc', w'))"
      by (auto split: option.splits sum.splits)
    from Cons.prems(3) c have "\<not> 0xFFFFFFFF <=s time_now (w\<lparr>w_now := t\<rparr>)"
      by (simp add: time_now_def word_sless_alt word_sle_eq)
    from rconn_run_not_idle [OF r Cons.prems(1,2) this]
    have "rc_probe_interval rc1 = 0" "rc_state rc1 \<noteq> S_IDLE" by simp_all
    from Cons.IH [OF this _ rest] Cons.prems(3) show ?case by simp
  qed
  with assms a show "rc_state rc' \<noteq> S_IDLE" "rc_probe_interval rc' = 0" by blast+
qed

theorem probe_zero_never_idle_witness:
  "rc_probe_interval example_unprobed = 0
   \<and> rc_state example_unprobed = S_ACTIVE \<and> time_now example_world <s 0xFFFFFFFF
   \<and> \<not> timed_out example_unprobed example_world
   \<and> rc_state example_unprobed \<noteq> S_IDLE
   \<and> run_state example_unprobed example_world = Inr (example_unprobed, example_world)
   \<and> (1000 :: time_t) <s 0xFFFFFFFF \<and> (5000 :: time_t) <s 0xFFFFFFFF
   \<and> run_rounds [1000, 5000] example_unprobed example_world
       = Inr (example_unprobed, example_world\<lparr>w_now := 5000\<rparr>)
   \<and> run_calls [(2, 1000), (2, 5000)] example_unprobed example_world
       = Some (Inr (example_unprobed, example_world\<lparr>w_now := 5000\<rparr>))"
proof -
  have p: "rc_probe_interval example_unprobed = 0"
    and s: "rc_state example_unprobed = S_ACTIVE" and q: "rc_txq example_unprobed = []"
    by (simp_all add: example_unprobed_def rconn_set_probe_interval_def example_defs)
  have n: "time_now example_world <s 0xFFFFFFFF"
    by (simp add: example_defs eval_defs)
  have c: "(1000 :: time_t) <s 0xFFFFFFFF \<and> (5000 :: time_t) <s 0xFFFFFFFF"
    by (simp add: eval_defs)
  have t: "\<not> timed_out example_unprobed (example_world\<lparr>w_now := x\<rparr>)" if "x <s 0xFFFFFFFF" for x
    using probe_zero_never_idle [OF p, of "example_world\<lparr>w_now := x\<rparr>"] s that
    by (simp add: time_now_def)
  have t0: "\<not> timed_out example_unprobed example_world"
    using probe_zero_never_idle [OF p, of example_world] s n by blast
  have round: "run_state example_unprobed (example_world\<lparr>w_now := x\<rparr>)
             = Inr (example_unprobed, example_world\<lparr>w_now := x\<rparr>)"
    if "x <s 0xFFFFFFFF" for x
    using t [OF that] s q by (simp add: run_state_def run_ACTIVE_def do_tx_work_def)
  have round0: "run_state example_unprobed example_world = Inr (example_unprobed, example_world)"
    using t0 s q by (simp add: run_state_def run_ACTIVE_def do_tx_work_def)
  have run: "rconn_run 2 example_unprobed (example_world\<lparr>w_now := x\<rparr>)
             = Some (Inr (example_unprobed, example_world\<lparr>w_now := x\<rparr>))"
    if "x <s 0xFFFFFFFF" for x
    using round [OF that] by (simp add: numeral_2_eq_2)
  have rounds: "run_rounds [1000, 5000] example_unprobed example_world
       = Inr (example_unprobed, example_world\<lparr>w_now := 5000\<rparr>)"
    using round [of 1000] round [of 5000] c by simp
  have calls: "run_calls [(2, 1000), (2, 5000)] example_unprobed example_world
       = Some (Inr (example_unprobed, example_world\<lparr>w_now := 5000\<rparr>))"
    using run [of 1000] run [of 5000] c by simp
  from p s n t0 round0 c rounds calls show ?thesis by simp
qed

lemma example_probing_eq:
  "run_ACTIVE example_active (example_world\<lparr>w_now := 1005\<rparr>) = Inr example_probing"
  "rc_state (fst example_probing) = S_IDLE"
  "rc_state_entered (fst example_probing) = 1005"
  "rc_reliable (fst example_probing)"
  "rc_txq (fst example_probing) = []"
  "w_now (snd example_probing) = 1005"
  "w_sent (snd example_probing) = [(example_vconn, w_echo example_world)]"
  unfolding example_probing_def
  by (simp_all add: run_ACTIVE_def timed_out_def timeout_def timeout_ACTIVE_def
        state_transition_def rconn_send_def rconn_is_connected_def is_connected_state_def
        copy_to_monitor_def copy_loop.simps ofpbuf_delete_def try_send_def vconn_send_def
        elapsed_in_this_state_def Let_def example_defs eval_defs)

text \<open>
  Claim C2 as stated fails twice. With the clock at 4294967295 the ACTIVE state of an
  rconn with \<open>probe_interval = 0\<close> times out and \<open>run_ACTIVE\<close> moves it to IDLE. And an
  rconn that is in IDLE when its probe interval is set to 0 times out at once:
  \<open>run_IDLE\<close> disconnects it.
\<close>

theorem probe_zero_counterexample:
  "rc_probe_interval example_unprobed = 0 \<and> rc_state example_unprobed = S_ACTIVE
   \<and> timed_out example_unprobed example_year_2106
   \<and> \<not> isl (run_ACTIVE example_unprobed example_year_2106)
   \<and> rc_state (fst (projr (run_ACTIVE example_unprobed example_year_2106))) = S_IDLE
   \<and> rc_probe_interval example_idle_unprobed = 0 \<and> rc_state example_idle_unprobed = S_IDLE
   \<and> timed_out example_idle_unprobed (snd example_probing)
   \<and> \<not> isl (run_IDLE example_idle_unprobed (snd example_probing))
   \<and> rc_state (fst (projr (run_IDLE example_idle_unprobed (snd example_probing)))) = S_BACKOFF"
proof -
  have a: "rc_probe_interval example_unprobed = 0 \<and> rc_state example_unprobed = S_ACTIVE
    \<and> timed_out example_unprobed example_year_2106"
    by (simp add: example_unprobed_def example_year_2106_def timed_out_def timeout_def
          timeout_ACTIVE_def example_defs eval_defs)
  have b: "\<not> isl (run_ACTIVE example_unprobed example_year_2106)
    \<and> rc_state (fst (projr (run_ACTIVE example_unprobed example_year_2106))) = S_IDLE"
    by (simp add: run_ACTIVE_def timed_out_def timeout_def timeout_ACTIVE_def
          state_transition_def rconn_send_def rconn_is_connected_def is_connected_state_def
          copy_to_monitor_def copy_loop.simps ofpbuf_delete_def try_send_def vconn_send_def
          elapsed_in_this_state_def Let_def example_unprobed_def example_year_2106_def
          example_defs eval_defs)
  have c: "rc_probe_interval example_idle_unprobed = 0 \<and> rc_state example_idle_unprobed = S_IDLE
    \<and> timed_out example_idle_unprobed (snd example_probing)"
    by (simp add: example_idle_unprobed_def rconn_set_probe_interval_def example_probing_eq
          timed_out_def timeout_def timeout_IDLE_def time_now_def eval_defs)
  have r: "rc_reliable (question_connectivity example_idle_unprobed (snd example_probing))"
    "rc_txq (question_connectivity example_idle_unprobed (snd example_probing)) = []"
    by (simp_all add: example_idle_unprobed_def rconn_set_probe_interval_def example_probing_eq)
  obtain rc' w' where d: "disconnect (question_connectivity example_idle_unprobed (snd example_probing))
      (snd example_probing) = Inr (rc', w')"
    using disconnect_returns [OF r(2)] by blast
  from disconnect_reliable(1) [OF r(1) d] d c
  have "\<not> isl (run_IDLE example_idle_unprobed (snd example_probing))
    \<and> rc_state (fst (projr (run_IDLE example_idle_unprobed (snd example_probing)))) = S_BACKOFF"
    by (simp add: run_IDLE_def)
  with a b c show ?thesis by blast
qed

lemma example_refused_8:
  "rconn_connect (rconn_create 0 8 example_world) ''tcp:10.0.0.1'' example_world
     = Inr (example_refused 8)"
  "rc_state (fst (snd (example_refused 8))) = S_BACKOFF"
  "rc_backoff (fst (snd (example_refused 8))) = 1"
  "rc_max_backoff (fst (snd (example_refused 8))) = 8"
  "rc_backoff_deadline (fst (snd (example_refused 8))) = 1001"
  "w_now (snd (snd (example_refused 8))) = 1000"
  unfolding example_refused_def
  by (simp_all add: rconn_connect_def rconn_disconnect_def set_vconn_name_def reconnect_def
        vconn_open_def disconnect_def Let_def example_defs eval_defs)

lemma example_refused_neg:
  "rconn_connect (rconn_create 0 (- 5) example_world) ''tcp:10.0.0.1'' example_world
     = Inr (example_refused (- 5))"
  "rc_state (fst (snd (example_refused (- 5)))) = S_BACKOFF"
  "rc_backoff (fst (snd (example_refused (- 5)))) = - 5"
  "rc_max_backoff (fst (snd (example_refused (- 5)))) = - 5"
  unfolding example_refused_def
  by (simp_all add: rconn_connect_def rconn_disconnect_def set_vconn_name_def reconnect_def
        vconn_open_def disconnect_def Let_def example_defs eval_defs)

text \<open>Where \<open>max_backoff\<close> is at least 1, \<open>disconnect\<close> leaves \<open>1 <= backoff <= max_backoff\<close>,
  and so does \<open>rconn_set_max_backoff\<close> with an argument of at least 1.\<close>

lemma disconnect_backoff_bounds:
  assumes "rc_reliable rc" and "disconnect rc w = Inr (rc', w')" and "1 <=s rc_max_backoff rc"
  shows "1 <=s rc_backoff rc' \<and> rc_backoff rc' <=s rc_max_backoff rc'"
  using disconnect_reliable(2,4) [OF assms(1,2)] assms(3)
  by (simp add: word_sle_eq sint_c_MIN sint_c_MAX)

lemma set_max_backoff_bounds:
  assumes "rc_state rc = S_BACKOFF \<longrightarrow> 1 <=s rc_backoff rc \<and> rc_backoff rc <=s rc_max_backoff rc"
    and "1 <=s max_backoff"
  shows "rc_state (rconn_set_max_backoff rc max_backoff w) = S_BACKOFF \<longrightarrow>
           1 <=s rc_backoff (rconn_set_max_backoff rc max_backoff w)
           \<and> rc_backoff (rconn_set_max_backoff rc max_backoff w)
               <=s rc_max_backoff (rconn_set_max_backoff rc max_backoff w)"
  using assms
  by (auto simp: rconn_set_max_backoff_def Let_def c_MAX_def word_sle_eq word_sless_alt)

text \<open>
  Claim C3 fails on the code. A new rconn with \<open>max_backoff = 8\<close> whose first
  \<open>vconn_open\<close> is refused is in BACKOFF with backoff 1. Then
  \<open>rconn_set_max_backoff(rc, 0)\<close> stores \<open>MAX(1, 0) = 1\<close> in \<open>max_backoff\<close>, but compares
  and assigns \<open>backoff\<close> with the argument itself: the state is BACKOFF and the backoff
  is 0. And \<open>rconn_create\<close> replaces a \<open>max_backoff\<close> of 0 only: with \<open>-5\<close> the first
  refused connection leaves the backoff at \<open>MIN(-5, MAX(1, 0)) = -5\<close> in BACKOFF.
\<close>

theorem set_max_backoff_breaks_backoff_bound:
  "rconn_connect (rconn_create 0 8 example_world) ''tcp:10.0.0.1'' example_world
     = Inr (example_refused 8)
   \<and> rc_state (fst (snd (example_refused 8))) = S_BACKOFF
   \<and> rc_backoff (fst (snd (example_refused 8))) = 1
   \<and> rc_max_backoff (fst (snd (example_refused 8))) = 8
   \<and> rc_state (rconn_set_max_backoff (fst (snd (example_refused 8))) 0 (snd (snd (example_refused 8))))
       = S_BACKOFF
   \<and> rc_max_backoff (rconn_set_max_backoff (fst (snd (example_refused 8))) 0 (snd (snd (example_refused 8))))
       = 1
   \<and> rc_backoff (rconn_set_max_backoff (fst (snd (example_refused 8))) 0 (snd (snd (example_refused 8))))
       = 0
   \<and> \<not> 1 <=s rc_backoff (rconn_set_max_backoff (fst (snd (example_refused 8))) 0 (snd (snd (example_refused 8))))
   \<and> rconn_connect (rconn_create 0 (- 5) example_world) ''tcp:10.0.0.1'' example_world
     = Inr (example_refused (- 5))
   \<and> rc_state (fst (snd (example_refused (- 5)))) = S_BACKOFF
   \<and> rc_backoff (fst (snd (example_refused (- 5)))) = - 5
   \<and> \<not> 1 <=s rc_backoff (fst (snd (example_refused (- 5))))"
  by (simp add: example_refused_8 example_refused_neg rconn_set_max_backoff_def Let_def
        time_now_def eval_defs)

lemma ok_fields:
  "rc_state rc' = rc_state rc \<Longrightarrow> rc_reliable rc' = rc_reliable rc \<Longrightarrow>
   rc_vconn rc' = rc_vconn rc \<Longrightarrow> lifecycle_ok rc' = lifecycle_ok rc"
  by (simp add: lifecycle_ok_def)

lemma state_transition_fix: "x = state_transition x st w \<Longrightarrow> rc_state x = st"
  by (drule arg_cong [where f = rc_state]) simp

lemma rconn_disconnect_ok: "lifecycle_ok (fst (rconn_disconnect rc w))"
  by (simp add: rconn_disconnect_def lifecycle_ok_def Let_def split: option.splits)

lemma disconnect_ok: "disconnect rc w = Inr (rc', w') \<Longrightarrow> lifecycle_ok rc'"
proof (cases "rc_reliable rc")
  case True
  assume "disconnect rc w = Inr (rc', w')"
  from disconnect_reliable(1,5) [OF True this] show ?thesis
    by (simp add: lifecycle_ok_def)
next
  case False
  assume "disconnect rc w = Inr (rc', w')"
  with False have "rc' = fst (rconn_disconnect rc w)" by (auto simp: disconnect_def)
  then show ?thesis by (simp add: rconn_disconnect_ok)
qed

lemma try_send_ok:
  assumes "try_send rc w = Inr (r, rc', w')" and "lifecycle_ok rc"
  shows "lifecycle_ok rc'"
proof -
  from assms(1) obtain head "next" v where q: "rc_txq rc = head # next" and v: "rc_vconn rc = Some v"
    by (auto simp: try_send_def split: list.splits option.splits)
  obtain retval w1 where vs: "vconn_send v head w = (retval, w1)" by force
  show ?thesis
  proof (cases "retval = 0")
    case True
    with assms(1) q v vs obtain w2 where
      "rc' = rc\<lparr>rc_packets_sent := rc_packets_sent rc + 1, rc_txq := next\<rparr>"
      by (auto simp: try_send_def seq_eq_Inr Let_def)
    with assms(2) show ?thesis by (simp add: lifecycle_ok_def)
  next
    case False
    show ?thesis
    proof (cases "retval = EAGAIN")
      case True
      with assms(1) q v vs False have "rc' = rc"
        by (auto simp: try_send_def Let_def)
      with assms(2) show ?thesis by simp
    next
      case ne: False
      with assms(1) q v vs False have "disconnect rc w1 = Inr (rc', w')"
        by (auto simp: try_send_def seq_eq_Inr Let_def)
      from disconnect_ok [OF this] show ?thesis .
    qed
  qed
qed

lemma copy_to_monitor_reliable [simp]: "rc_reliable (fst (copy_to_monitor rc b w)) = rc_reliable rc"
  by (simp add: copy_to_monitor_rc)

lemma copy_to_monitor_vconn [simp]: "rc_vconn (fst (copy_to_monitor rc b w)) = rc_vconn rc"
  by (simp add: copy_to_monitor_rc)

lemma rconn_send_ok:
  assumes "rconn_send rc b counter w = Inr (r, rc', w')" and "lifecycle_ok rc"
  shows "lifecycle_ok rc'"
proof (cases "rconn_is_connected rc")
  case False
  with assms show ?thesis by (simp add: rconn_send_def)
next
  case True
  obtain rc1 w1 where cm: "copy_to_monitor rc b w = (rc1, w1)" by force
  have st: "rc_state rc1 = rc_state rc" "rc_reliable rc1 = rc_reliable rc"
    "rc_vconn rc1 = rc_vconn rc"
    using copy_to_monitor_state [of rc b w] copy_to_monitor_reliable [of rc b w]
      copy_to_monitor_vconn [of rc b w] cm by simp_all
  let ?rc2 = "rc1\<lparr>rc_txq := rc_txq rc1 @ [b\<lparr>b_private_p := counter\<rparr>]\<rparr>"
  have b2: "lifecycle_ok ?rc2"
    using assms(2) st by (simp add: lifecycle_ok_def)
  from assms(1) True cm have
    "(\<exists>w2 r1. try_send ?rc2 w2 = Inr (r1, rc', w')) \<or> rc' = ?rc2"
    by (auto simp: rconn_send_def seq_eq_Inr Let_def split: if_splits) blast
  then show ?thesis
  proof
    assume "\<exists>w2 r1. try_send ?rc2 w2 = Inr (r1, rc', w')"
    then obtain w2 r1 where "try_send ?rc2 w2 = Inr (r1, rc', w')" by blast
    from try_send_ok [OF this b2] show ?thesis .
  next
    assume "rc' = ?rc2"
    with b2 show ?thesis by simp
  qed
qed

lemma do_tx_loop_ok:
  "do_tx_loop rc w = Inr (rc', w') \<Longrightarrow> lifecycle_ok rc \<Longrightarrow> lifecycle_ok rc'"
proof (induction rc w rule: do_tx_loop.induct)
  case (1 rc w)
  show ?case
  proof (cases "0 < length (rc_txq rc)")
    case False
    with "1.prems" show ?thesis by (simp add: do_tx_loop.simps [of rc w])
  next
    case True
    with "1.prems" obtain r where ts: "try_send rc w = Inr r"
      by (auto simp: do_tx_loop.simps [of rc w] split: sum.splits)
    have k1: "lifecycle_ok (fst (snd r))"
      using try_send_ok [of rc w "fst r" "fst (snd r)" "snd (snd r)"] ts "1.prems"(2) by simp
    show ?thesis
    proof (cases "fst r = 0")
      case False
      with "1.prems" True ts have "rc' = fst (snd r)"
        by (auto simp: do_tx_loop.simps [of rc w])
      with k1 show ?thesis by simp
    next
      case e: True
      with "1.prems" True ts have dl: "do_tx_loop (fst (snd r)) (snd (snd r)) = Inr (rc', w')"
        by (auto simp: do_tx_loop.simps [of rc w])
      from e have "\<not> fst r \<noteq> 0" by simp
      from "1.IH" [OF True ts this dl k1] show ?thesis .
    qed
  qed
qed

lemma do_tx_work_ok:
  assumes "do_tx_work rc w = Inr (rc', w')" and "lifecycle_ok rc"
  shows "lifecycle_ok rc'"
proof (cases "rc_txq rc = []")
  case True
  with assms show ?thesis by (simp add: do_tx_work_def)
next
  case False
  with assms(1) obtain w1 where l: "do_tx_loop rc w = Inr (rc', w1)"
    by (auto simp: do_tx_work_def seq_eq_Inr)
  from do_tx_loop_ok [OF l assms(2)] show ?thesis .
qed

lemma reconnect_vconn:
  assumes "reconnect rc w = Inr (r, rc', w')" and "r = 0"
  shows "rc_vconn rc' \<noteq> None"
proof -
  obtain retval v where o: "w_open w (w_open_n w) (rc_name rc) = (retval, v)" by force
  have vo: "vconn_open (rc_name rc) w
              = (retval, if retval = 0 then Some v else None, w\<lparr>w_open_n := Suc (w_open_n w)\<rparr>)"
    using o by (simp add: vconn_open_def)
  from reconnect_result(1) [OF assms(1)] o assms(2) have "retval = 0" by simp
  with assms(1) vo show ?thesis
    by (auto simp: reconnect_def Let_def)
qed

lemma reconnect_ok:
  assumes "reconnect rc w = Inr (r, rc', w')" and "rc_reliable rc"
  shows "lifecycle_ok rc'"
proof (cases "r = 0")
  case True
  from reconnect_result(6,8) [OF assms(1)] assms(2) True reconnect_vconn [OF assms(1) True]
  show ?thesis by (simp add: lifecycle_ok_def)
next
  case False
  from reconnect_result(6,7) [OF assms(1)] assms(2) False
  show ?thesis by (simp add: lifecycle_ok_def)
qed

lemma run_state_ok:
  assumes "run_state rc w = Inr (rc', w')" and "lifecycle_ok rc"
  shows "lifecycle_ok rc'"
proof (cases "rc_state rc")
  case S_VOID
  with assms show ?thesis by (simp add: run_state_def run_VOID_def)
next
  case S_BACKOFF
  with assms(2) have "rc_reliable rc" by (simp add: lifecycle_ok_def)
  with assms S_BACKOFF show ?thesis
    by (auto simp: run_state_def run_BACKOFF_def seq_eq_Inr split: if_splits dest: reconnect_ok)
next
  case S_CONNECTING
  with assms show ?thesis
    by (auto simp: run_state_def run_CONNECTING_def Let_def vconn_connect_def
             lifecycle_ok_def
             split: option.splits if_splits dest: disconnect_ok)
next
  case S_ACTIVE
  have "lifecycle_ok (state_transition rc S_IDLE w)"
    using assms(2) S_ACTIVE by (simp add: lifecycle_ok_def)
  with assms S_ACTIVE show ?thesis
    by (auto simp: run_state_def run_ACTIVE_def seq_eq_Inr Let_def split: if_splits
             dest: do_tx_work_ok rconn_send_ok)
next
  case S_IDLE
  with assms show ?thesis
    by (auto simp: run_state_def run_IDLE_def split: if_splits
             dest: do_tx_work_ok disconnect_ok)
qed

lemma rconn_run_ok:
  "rconn_run k rc w = Some (Inr (rc', w')) \<Longrightarrow> lifecycle_ok rc \<Longrightarrow> lifecycle_ok rc'"
proof (induction k arbitrary: rc w)
  case 0
  then show ?case by simp
next
  case (Suc k)
  from Suc.prems(1) obtain rc1 w1 where rs: "run_state rc w = Inr (rc1, w1)"
    by (auto split: sum.splits)
  note b1 = run_state_ok [OF rs Suc.prems(2)]
  show ?case
  proof (cases "rc_state rc1 \<noteq> rc_state rc")
    case True
    with Suc.prems(1) rs have "rconn_run k rc1 w1 = Some (Inr (rc', w'))" by simp
    from Suc.IH [OF this b1] show ?thesis .
  next
    case False
    with Suc.prems(1) rs have "rc' = rc1" by simp
    with b1 show ?thesis by simp
  qed
qed

lemma seq_Inr_elim:
  assumes "seq m f = Inr y"
  obtains x where "m = Inr x" and "f x = Inr y"
  using assms by (auto simp: seq_eq_Inr)

lemma recv_not_connected:
  "rc_state rc \<noteq> S_ACTIVE \<Longrightarrow> rc_state rc \<noteq> S_IDLE \<Longrightarrow> rconn_recv T rc w = Inr (None, rc, w)"
  by (cases "rc_state rc") (simp_all add: rconn_recv_def)

lemma recv_connected:
  assumes "rc_state rc = S_ACTIVE \<or> rc_state rc = S_IDLE"
  shows "rconn_recv T rc w =
       (case rc_vconn rc of
           None \<Rightarrow> Inl Null_vconn
         | Some v \<Rightarrow>
             let (error, buffer, w1) = vconn_recv w
             in if error = 0 then
                  let (rc1, w2) = copy_to_monitor rc buffer w1
                  in seq (if rc_probably_admitted rc1 then Inr True
                          else seq (is_admitted_msg T buffer)
                                 (\<lambda>a. Inr (a \<or> 30 <=s time_now w2 - rc_last_connected rc1)))
                       (\<lambda>admit.
                          let rc2 = (if admit
                                     then rc1\<lparr>rc_probably_admitted := True,
                                             rc_last_admitted := time_now w2\<rparr>
                                     else rc1);
                              rc3 = rc2\<lparr>rc_last_received := time_now w2\<rparr>;
                              rc4 = rc3\<lparr>rc_packets_received := rc_packets_received rc3 + 1\<rparr>;
                              rc5 = (if rc_state rc4 = S_IDLE
                                     then state_transition rc4 S_ACTIVE w2 else rc4)
                          in Inr (Some buffer, rc5, w2))
                else if error \<noteq> EAGAIN
                then seq (disconnect rc w1) (\<lambda>(rc1, w2). Inr (None, rc1, w2))
                else Inr (None, rc, w1))"
proof -
  from assms have "(state_val (rc_state rc) AND (state_val S_ACTIVE OR state_val S_IDLE)) \<noteq> 0"
    by auto
  then show ?thesis unfolding rconn_recv_def by (rule if_P)
qed

lemma rconn_recv_ok:
  assumes "rconn_recv T rc w = Inr (b, rc', w')" and "lifecycle_ok rc"
  shows "lifecycle_ok rc'"
proof (cases "rc_state rc = S_ACTIVE \<or> rc_state rc = S_IDLE")
  case False
  with assms show ?thesis by (simp add: recv_not_connected)
next
  case True
  note rv = recv_connected [OF True, of T w]
  from assms(1) rv obtain v where v: "rc_vconn rc = Some v"
    by (cases "rc_vconn rc") simp_all
  obtain error buffer w1 where vr: "vconn_recv w = (error, buffer, w1)"
    by (cases "vconn_recv w") auto
  show ?thesis
  proof (cases "error = 0")
    case e: True
    obtain rc1 w2 where cm: "copy_to_monitor rc buffer w1 = (rc1, w2)" by force
    have st: "rc_state rc1 = rc_state rc" "rc_vconn rc1 = Some v"
      using copy_to_monitor_state [of rc buffer w1] copy_to_monitor_vconn [of rc buffer w1] cm v
      by simp_all
    define F where "F = (\<lambda>admit.
                          let rc2 = (if admit
                                     then rc1\<lparr>rc_probably_admitted := True,
                                             rc_last_admitted := time_now w2\<rparr>
                                     else rc1);
                              rc3 = rc2\<lparr>rc_last_received := time_now w2\<rparr>;
                              rc4 = rc3\<lparr>rc_packets_received := rc_packets_received rc3 + 1\<rparr>;
                              rc5 = (if rc_state rc4 = S_IDLE
                                     then state_transition rc4 S_ACTIVE w2 else rc4)
                          in (Inr (Some buffer, rc5, w2) :: fault + ofpbuf option \<times> rconn \<times> world))"
    define A where "A = (if rc_probably_admitted rc1 then Inr True
                          else seq (is_admitted_msg T buffer)
                                 (\<lambda>a. Inr (a \<or> 30 <=s time_now w2 - rc_last_connected rc1)))"
    have "rconn_recv T rc w = seq A F"
      unfolding rv v vr e A_def F_def by (simp add: cm)
    with assms(1) have "seq A F = Inr (b, rc', w')" by simp
    then obtain admit where "F admit = Inr (b, rc', w')"
      by (rule seq_Inr_elim)
    with st True have "rc_state rc' = S_ACTIVE \<and> rc_vconn rc' = Some v"
      unfolding F_def by (cases "rc_state rc = S_IDLE"; cases admit) (auto simp: Let_def)
    then show ?thesis by (simp add: lifecycle_ok_def)
  next
    case ne: False
    show ?thesis
    proof (cases "error = EAGAIN")
      case True
      with assms rv v vr ne show ?thesis by simp
    next
      case False
      with assms(1) rv v vr ne have "seq (disconnect rc w1) (\<lambda>(rc1, w2). Inr (None, rc1, w2)) = Inr (b, rc', w')"
        by simp
      then have "disconnect rc w1 = Inr (rc', w')"
        by (auto simp: seq_eq_Inr)
      from disconnect_ok [OF this] show ?thesis .
    qed
  qed
qed

lemma rconn_send_with_limit_ok:
  assumes "rconn_send_with_limit rc b counter queue_limit w = Inr (r, rc', w')"
    and "lifecycle_ok rc"
  shows "lifecycle_ok rc'"
proof -
  from assms(1) have "rc' = rc \<or> (\<exists>e w1. rconn_send rc b counter w = Inr (e, rc', w1))"
    by (auto simp: rconn_send_with_limit_def seq_eq_Inr split: option.splits if_splits)
  with assms(2) show ?thesis by (auto dest: rconn_send_ok)
qed

lemma rconn_connect_ok: "rconn_connect rc nm w = Inr (r, rc', w') \<Longrightarrow> lifecycle_ok rc'"
  by (auto simp: rconn_connect_def Let_def split: prod.splits dest!: reconnect_ok)

lemma rconn_connect_unreliably_ok:
  "rconn_connect_unreliably rc nm v w = Inr (rc', w') \<Longrightarrow> lifecycle_ok rc'"
  by (auto simp: rconn_connect_unreliably_def Let_def lifecycle_ok_def
           split: prod.splits if_splits)

text \<open>Every reachable configuration has the two properties.\<close>

lemma reachable_lifecycle_ok: "reachable rc \<Longrightarrow> lifecycle_ok rc"
proof (induction rule: reachable.induct)
  case (reach_create probe_interval max_backoff w)
  show ?case
    by (simp add: lifecycle_ok_def rconn_create_def rconn_set_probe_interval_def)
next
  case (reach_set_max_backoff rc max_backoff w)
  then show ?case
    by (simp add: lifecycle_ok_def rconn_set_max_backoff_def Let_def)
next
  case (reach_set_probe_interval rc probe_interval)
  then show ?case
    by (simp add: lifecycle_ok_def rconn_set_probe_interval_def)
next
  case (reach_connect rc nm w r rc' w')
  then show ?case by (simp add: rconn_connect_ok)
next
  case (reach_connect_unreliably rc nm v w rc' w')
  then show ?case by (simp add: rconn_connect_unreliably_ok)
next
  case (reach_reconnect rc w rc' w')
  then show ?case
    by (auto simp: rconn_reconnect_def split: if_splits dest: disconnect_ok)
next
  case (reach_disconnect rc w rc' w')
  then show ?case using rconn_disconnect_ok [of rc w] by simp
next
  case (reach_run rc k w rc' w')
  then show ?case by (simp add: rconn_run_ok)
next
  case (reach_recv rc T w b rc' w')
  then show ?case by (simp add: rconn_recv_ok)
next
  case (reach_send rc b counter w r rc' w')
  then show ?case by (simp add: rconn_send_ok)
next
  case (reach_send_with_limit rc b counter queue_limit w r rc' w')
  then show ?case by (simp add: rconn_send_with_limit_ok)
next
  case (reach_add_monitor rc v w rc' w')
  then show ?case
    by (auto simp: rconn_add_monitor_def lifecycle_ok_def split: if_splits)
next
  case (reach_is_connectivity_questionable rc q rc')
  then show ?case
    by (auto simp: rconn_is_connectivity_questionable_def lifecycle_ok_def)
qed

text \<open>What \<open>reconnect\<close> returns when the transport opens, and what \<open>run_CONNECTING\<close>
  returns while the connection is neither made nor timed out.\<close>

lemma reconnect_success:
  assumes "w_open w (w_open_n w) (rc_name rc) = (0, v)"
  shows "reconnect rc w =
    Inr (0,
      state_transition
        (rc\<lparr>rc_n_attempted_connections := rc_n_attempted_connections rc + 1,
            rc_vconn := Some v, rc_remote_ip := vc_remote_ip v, rc_local_ip := vc_local_ip v,
            rc_remote_port := vc_remote_port v,
            rc_backoff_deadline := time_now w + scast (rc_backoff rc)\<rparr>)
        S_CONNECTING (w\<lparr>w_open_n := Suc (w_open_n w)\<rparr>),
      w\<lparr>w_open_n := Suc (w_open_n w)\<rparr>)"
  using assms by (simp add: reconnect_def vconn_open_def Let_def time_now_def)

lemma run_CONNECTING_waiting:
  assumes "rc_vconn rc = Some v" and "w_connect w (w_connect_n w) = EAGAIN" and "\<not> timed_out rc w"
  shows "run_CONNECTING rc w = Inr (rc, w\<lparr>w_connect_n := Suc (w_connect_n w)\<rparr>)"
proof -
  have "\<not> timed_out rc (w\<lparr>w_connect_n := Suc (w_connect_n w)\<rparr>)"
    using assms(3) timed_out_clock [of "w\<lparr>w_connect_n := Suc (w_connect_n w)\<rparr>" w rc] by simp
  with assms(1,2) show ?thesis
    by (simp add: run_CONNECTING_def vconn_connect_def EAGAIN_def)
qed

lemma example_refused_8_more:
  "rc_state_entered (fst (snd (example_refused 8))) = 1000"
  "rc_reliable (fst (snd (example_refused 8)))"
  "rc_name (fst (snd (example_refused 8))) = ''tcp:10.0.0.1''"
  "rc_txq (fst (snd (example_refused 8))) = []"
  "w_open_n (snd (snd (example_refused 8))) = 1"
  "w_connect_n (snd (snd (example_refused 8))) = 0"
  "w_connect (snd (snd (example_refused 8))) = (\<lambda>i. EAGAIN)"
  unfolding example_refused_def
  by (simp_all add: rconn_connect_def rconn_disconnect_def set_vconn_name_def reconnect_def
        vconn_open_def disconnect_def Let_def example_defs eval_defs)

lemma example_retrying_eq:
  "rconn_run 2 (fst (snd (example_refused 8)))
       ((snd (snd (example_refused 8)))\<lparr>w_now := 1001, w_open := (\<lambda>i nm. (0, example_vconn))\<rparr>)
     = Some (Inr example_retrying)"
  "rc_state (fst example_retrying) = S_CONNECTING"
  "rc_state_entered (fst example_retrying) = 1001"
  "rc_backoff (fst example_retrying) = 1"
  "rc_max_backoff (fst example_retrying) = 8"
  "rc_backoff_deadline (fst example_retrying) = 1002"
  "rc_txq (fst example_retrying) = []"
  "w_connect (snd example_retrying) = (\<lambda>i. EAGAIN)"
proof -
  define rc1 where "rc1 = fst (snd (example_refused 8))"
  define w1 where "w1 = (snd (snd (example_refused 8)))\<lparr>w_now := 1001, w_open := (\<lambda>i nm. (0, example_vconn))\<rparr>"
  define w2 where "w2 = w1\<lparr>w_open_n := Suc (w_open_n w1)\<rparr>"
  define rc2 where "rc2 = state_transition
        (rc1\<lparr>rc_n_attempted_connections := rc_n_attempted_connections rc1 + 1,
            rc_vconn := Some example_vconn, rc_remote_ip := vc_remote_ip example_vconn,
            rc_local_ip := vc_local_ip example_vconn,
            rc_remote_port := vc_remote_port example_vconn,
            rc_backoff_deadline := time_now w1 + scast (rc_backoff rc1)\<rparr>)
        S_CONNECTING w2"
  note f = example_refused_8 (2-6) example_refused_8_more
  have s1: "rc_state rc1 = S_BACKOFF"
    by (simp add: rc1_def f)
  have to: "timed_out rc1 w1"
    by (simp add: timed_out_def timeout_def timeout_BACKOFF_def rc1_def w1_def f time_now_def
          eval_defs)
  have op: "w_open w1 (w_open_n w1) (rc_name rc1) = (0, example_vconn)"
    by (simp add: w1_def)
  have r1: "run_state rc1 w1 = Inr (rc2, w2)"
    using to reconnect_success [OF op] s1
    by (simp add: run_state_def run_BACKOFF_def rc2_def w2_def)
  have s2: "rc_state rc2 = S_CONNECTING" "rc_vconn rc2 = Some example_vconn"
    "rc_state_entered rc2 = 1001" "rc_backoff rc2 = 1" "rc_max_backoff rc2 = 8"
    "rc_backoff_deadline rc2 = 1002" "rc_txq rc2 = []"
    by (simp_all add: rc2_def rc1_def w2_def w1_def f time_now_def)
  have c2: "w_connect w2 (w_connect_n w2) = EAGAIN" "w_connect w2 = (\<lambda>i. EAGAIN)"
    by (simp_all add: w2_def w1_def f)
  have nto: "\<not> timed_out rc2 w2"
    by (simp add: timed_out_def timeout_def timeout_CONNECTING_def s2 w2_def w1_def time_now_def
          eval_defs)
  have r2: "run_state rc2 w2 = Inr (rc2, w2\<lparr>w_connect_n := Suc (w_connect_n w2)\<rparr>)"
    using run_CONNECTING_waiting [OF s2(2) c2(1) nto] s2(1) by (simp add: run_state_def)
  have run: "rconn_run 2 rc1 w1 = Some (Inr (rc2, w2\<lparr>w_connect_n := Suc (w_connect_n w2)\<rparr>))"
    using r1 r2 s1 s2(1) by (simp add: numeral_2_eq_2)
  then have e: "example_retrying = (rc2, w2\<lparr>w_connect_n := Suc (w_connect_n w2)\<rparr>)"
    by (simp add: example_retrying_def rc1_def w1_def)
  show "rconn_run 2 (fst (snd (example_refused 8)))
       ((snd (snd (example_refused 8)))\<lparr>w_now := 1001, w_open := (\<lambda>i nm. (0, example_vconn))\<rparr>)
     = Some (Inr example_retrying)"
    using run e by (simp add: rc1_def w1_def)
  show "rc_state (fst example_retrying) = S_CONNECTING"
    "rc_state_entered (fst example_retrying) = 1001"
    "rc_backoff (fst example_retrying) = 1"
    "rc_max_backoff (fst example_retrying) = 8"
    "rc_backoff_deadline (fst example_retrying) = 1002"
    "rc_txq (fst example_retrying) = []"
    "w_connect (snd example_retrying) = (\<lambda>i. EAGAIN)"
    using s2 c2 by (simp_all add: e)
qed

lemma example_refused_reachable: "reachable (fst (snd (example_refused 8)))"
proof -
  have "rconn_connect (rconn_create 0 8 example_world) ''tcp:10.0.0.1'' example_world
          = Inr (fst (example_refused 8), fst (snd (example_refused 8)), snd (snd (example_refused 8)))"
    by (simp add: example_refused_8(1))
  from reach_connect [OF reach_create this] show ?thesis .
qed

lemma example_retrying_reachable: "reachable (fst example_retrying)"
proof -
  have "rconn_run 2 (fst (snd (example_refused 8)))
       ((snd (snd (example_refused 8)))\<lparr>w_now := 1001, w_open := (\<lambda>i nm. (0, example_vconn))\<rparr>)
     = Some (Inr (fst example_retrying, snd example_retrying))"
    by (simp add: example_retrying_eq(1))
  from reach_run [OF example_refused_reachable this] show ?thesis .
qed

text \<open>
  Claim C4. When a reachable rconn is in CONNECTING, the transport answers try-again to
  \<open>vconn_connect\<close> and the state has timed out (its timeout is \<open>MAX(1, backoff)\<close>), then
  \<open>run_CONNECTING\<close> ends in BACKOFF with the backoff
  \<open>MIN(max_backoff, MAX(1, 2 * backoff))\<close>, whatever \<open>backoff_deadline\<close> was: the branch
  that resets the backoff to 1 is not taken, as the deadline has been set to \<open>TIME_MAX\<close>.
  The clock is below \<open>TIME_MAX\<close>; at \<open>TIME_MAX\<close> itself the sum \<open>now + backoff\<close> that
  follows overflows, which C leaves undefined. With an empty send queue the call returns.
\<close>

theorem run_CONNECTING_timeout_doubles:
  assumes "reachable rc" and "rc_state rc = S_CONNECTING"
    and "w_connect w (w_connect_n w) = EAGAIN" and "timed_out rc w"
    and "time_now w \<noteq> TIME_MAX"
  shows "(\<forall>rc' w'. run_CONNECTING rc w = Inr (rc', w') \<longrightarrow>
            rc_state rc' = S_BACKOFF
            \<and> rc_backoff rc' = c_MIN (rc_max_backoff rc) (c_MAX 1 (2 * rc_backoff rc))
            \<and> rc_backoff_deadline rc' = time_now w + scast (rc_backoff rc')
            \<and> (- (2 ^ 30) \<le> sint (rc_backoff rc) \<and> sint (rc_backoff rc) < 2 ^ 30 \<longrightarrow>
                 sint (rc_backoff rc') = min (sint (rc_max_backoff rc)) (max 1 (2 * sint (rc_backoff rc)))))
       \<and> (rc_txq rc = [] \<longrightarrow> (\<exists>rc' w'. run_CONNECTING rc w = Inr (rc', w')))"
proof -
  from reachable_lifecycle_ok [OF assms(1)] assms(2)
  have "rc_reliable rc" and "rc_vconn rc \<noteq> None"
    by (simp_all add: lifecycle_ok_def)
  then obtain v where "rc_vconn rc = Some v" by auto
  from run_CONNECTING_timeout_reliable [OF assms(2) \<open>rc_reliable rc\<close> this assms(3,4,5)]
  show ?thesis .
qed

theorem run_CONNECTING_timeout_doubles_witness:
  "reachable (fst example_retrying) \<and> rc_state (fst example_retrying) = S_CONNECTING
   \<and> w_connect ((snd example_retrying)\<lparr>w_now := 1002\<rparr>)
        (w_connect_n ((snd example_retrying)\<lparr>w_now := 1002\<rparr>)) = EAGAIN
   \<and> timed_out (fst example_retrying) ((snd example_retrying)\<lparr>w_now := 1002\<rparr>)
   \<and> time_now ((snd example_retrying)\<lparr>w_now := 1002\<rparr>) \<noteq> TIME_MAX
   \<and> rc_backoff (fst example_retrying) = 1
   \<and> rc_backoff_deadline (fst example_retrying) <=s time_now ((snd example_retrying)\<lparr>w_now := 1002\<rparr>)
   \<and> (\<exists>rc' w'. run_CONNECTING (fst example_retrying) ((snd example_retrying)\<lparr>w_now := 1002\<rparr>)
                   = Inr (rc', w')
         \<and> rc_state rc' = S_BACKOFF \<and> rc_backoff rc' = 2 \<and> rc_backoff_deadline rc' = 1004)"
proof -
  let ?rc = "fst example_retrying" and ?w = "(snd example_retrying)\<lparr>w_now := 1002\<rparr>"
  note f = example_retrying_eq(2-8)
  have h: "rc_state ?rc = S_CONNECTING" "w_connect ?w (w_connect_n ?w) = EAGAIN"
    "timed_out ?rc ?w" "time_now ?w \<noteq> TIME_MAX"
    by (simp_all add: f timed_out_def timeout_def timeout_CONNECTING_def time_now_def eval_defs)
  have q: "rc_txq ?rc = []" "rc_backoff ?rc = 1" "rc_max_backoff ?rc = 8"
    "rc_backoff_deadline ?rc <=s time_now ?w"
    by (simp_all add: f time_now_def eval_defs)
  from run_CONNECTING_timeout_doubles [OF example_retrying_reachable h] q
  obtain rc' w' where "run_CONNECTING ?rc ?w = Inr (rc', w')"
    and "rc_state rc' = S_BACKOFF" and "rc_backoff rc' = 2" and "rc_backoff_deadline rc' = 1004"
    by (auto simp: time_now_def eval_defs)
  with example_retrying_reachable h q show ?thesis by blast
qed

end
